theory Spec2Isabelle
  imports Complex_Main "HOL-Library.Sublist"
begin

section \<open>Strings and dictionaries as the Python code uses them\<close>

text \<open>
  Strings are \<^typ>\<open>string\<close>. \<open>str.lower()\<close> is modelled on ASCII letters, which is all the
  manager names of the registry contain; other characters are left as they are.
\<close>

definition lower_char :: "char \<Rightarrow> char" where
  "lower_char c =
     (if 65 \<le> (of_char c :: nat) \<and> (of_char c :: nat) \<le> 90
      then char_of ((of_char c :: nat) + 32) else c)"

definition lower :: "string \<Rightarrow> string" where
  "lower s = map lower_char s"

text \<open>\<open>s.startswith(p)\<close>.\<close>

fun startswith :: "string \<Rightarrow> string \<Rightarrow> bool" where
  "startswith s [] = True"
| "startswith [] (p # ps) = False"
| "startswith (c # cs) (p # ps) = (c = p \<and> startswith cs ps)"

text \<open>\<open>sub in s\<close> on strings: \<open>sub\<close> occurs in \<open>s\<close> as a contiguous substring.\<close>

fun str_in :: "string \<Rightarrow> string \<Rightarrow> bool" where
  "str_in sub [] = (sub = [])"
| "str_in sub (c # cs) = (startswith (c # cs) sub \<or> str_in sub cs)"

text \<open>
  A Python \<open>dict\<close> with string keys is an association list in insertion order; a
  well-formed dictionary has distinct keys. \<open>d.get(k)\<close> is \<^const>\<open>map_of\<close>; for the
  availability map, \<open>installed.get(m)\<close> is used as a truth value, which is true exactly
  when the key is present with value \<open>True\<close>.
\<close>

type_synonym 'v dict = "(string \<times> 'v) list"

definition available :: "bool dict \<Rightarrow> string \<Rightarrow> bool" where
  "available installed m = (map_of installed m = Some True)"

section \<open>The host and the external collaborators\<close>

text \<open>\<open>core/execution.py\<close>: the result of running an external command.\<close>

record RunResult =
  ok :: bool
  code :: int
  out :: string
  err :: string

text \<open>
  Console lines written through \<open>cprint(text, level)\<close>. The text of a line is kept as
  the data its f-string formats: a manager appears by its identifier where the source
  prints \<open>_manager_human(m)\<close>, and \<open>ManagerFailed m res\<close> stands for the warning
  printed after a failed command, whose text the source computes from \<open>res.err\<close> and
  \<open>res.out\<close> (the last line, shortened to 180 characters, or a fixed text when both
  are blank).
\<close>

datatype level = INFO | SUCCESS | WARNING | ERROR | MUTED | CYAN

datatype message =
    PreparingInstall string
  | PreparingRemove string
  | NoSupportedManagers
  | PreferredNotAvailable string "string list"
  | NoManagersForInstallation
  | NoManagersForRemoval
  | ManagerNotAvailableForRemoval string
  | InstallationPlan
  | PlanEntry nat string
  | AttemptInstalling nat nat string
  | AttemptingRemoval string
  | InstalledVia string string
  | RemovedVia string string
  | ManagerFailed string RunResult
  | ManagerFailedException string string
  | FailedToInstall string
  | FailedToRemove string

text \<open>
  Everything a call does to the outside world, in the order it happens: console lines,
  external commands handed to \<open>run_command\<close> (with the timeout and retry count passed),
  and writes to the record store \<open>package_db\<close>.
\<close>

datatype event =
    Cprint message level
  | Run "string list" nat nat
  | DbAdd string string string string
  | DbRemove string string

text \<open>
  The three regular expressions of \<open>_extract_package_version\<close>:
  \<^verbatim>\<open>Successfully installed .* (\S+)-(\d+\.\d+\.\d+)\<close> for pip,
  \<^verbatim>\<open>@(\d+\.\d+\.\d+)\<close> for npm and \<^verbatim>\<open>(\d+\.\d+\.\d+)\<close> for apt, dnf and yum.
\<close>

datatype version_pattern = PipInstalled | NpmAtVersion | DottedVersion

text \<open>
  \<open>search/engine.py\<close>: values decoded from JSON, and a search result. The dataclass
  declares its text fields as \<open>str\<close>, but \<open>_parse_pypi_info\<close> stores whatever the
  registry's JSON holds, so they are values here. A relevance score is a number.
\<close>

datatype pyval =
    PNone
  | PBool bool
  | PNum real
  | PStr string
  | PList "pyval list"
  | PDict "(string \<times> pyval) list"

record SearchResult =
  name :: pyval
  description :: pyval
  version :: pyval
  manager :: string
  homepage :: pyval
  relevance_score :: real

text \<open>The answer to an HTTP GET: the status code, and \<open>r.json()\<close>, which may raise.\<close>

record response =
  status_code :: int
  json :: "string + pyval"

text \<open>
  The host: what the operating system and the network answer. \<open>which name\<close> is
  \<open>shutil.which(name) is not None\<close>; \<open>sys_executable\<close> is \<open>sys.executable\<close> (empty when
  unknown); \<open>platform_system\<close> is \<open>platform.system()\<close>. \<open>run_command\<close> and the two
  record-store operations answer a request given the events so far; \<open>Inl e\<close> (for the
  record store, \<open>Some e\<close>) is an exception of class \<open>Exception\<close> with text
  \<open>e\<close>. \<open>re_search pattern text\<close>
  is \<open>re.search\<close>: the groups of the first match, if there is one. What is on the
  path does not change during a call.

  For the search aggregator: \<open>session_get url timeout\<close> is \<open>self.session.get\<close>;
  \<open>search_backend m query\<close> is what the search function of a manager \<open>m\<close> other than
  pip returns or raises (registry queries and scraped command output);
  \<open>finished_in_time m\<close> tells whether the task of manager \<open>m\<close> completes before the
  deadline of \<open>as_completed(..., timeout=120)\<close>, and \<open>completion_rank\<close> orders the
  completed tasks as \<open>as_completed\<close> yields them.
\<close>

record host =
  platform_system :: string
  which :: "string \<Rightarrow> bool"
  sys_executable :: string
  run_command :: "event list \<Rightarrow> string list \<Rightarrow> nat \<Rightarrow> nat \<Rightarrow> string + RunResult"
  db_add_package :: "event list \<Rightarrow> string \<Rightarrow> string \<Rightarrow> string \<Rightarrow> string \<Rightarrow> string option"
  db_remove_package :: "event list \<Rightarrow> string \<Rightarrow> string \<Rightarrow> string option"
  re_search :: "version_pattern \<Rightarrow> string \<Rightarrow> string list option"
  session_get :: "string \<Rightarrow> nat \<Rightarrow> string + response"
  search_backend :: "string \<Rightarrow> string \<Rightarrow> string + SearchResult list"
  finished_in_time :: "string \<Rightarrow> bool"
  completion_rank :: "string \<Rightarrow> nat"

section \<open>core/config.py\<close>

definition MANAGER_INSTALL_HANDLERS :: "string dict" where
  "MANAGER_INSTALL_HANDLERS =
     [(''pip'', ''pip_install''), (''npm'', ''npm_install''), (''apt'', ''apt_install''),
      (''dnf'', ''dnf_install''), (''yum'', ''yum_install''), (''pacman'', ''pacman_install''),
      (''zypper'', ''zypper_install''), (''apk'', ''apk_install''), (''brew'', ''brew_install''),
      (''choco'', ''choco_install''), (''winget'', ''winget_install''),
      (''snap'', ''snap_install''), (''flatpak'', ''flatpak_install'')]"

definition os_type :: "host \<Rightarrow> string" where
  "os_type h =
     (let s = lower (platform_system h) in
      if startswith s ''win'' then ''windows''
      else if s = ''darwin'' then ''macos''
      else if s = ''linux'' then ''linux''
      else ''unknown'')"

section \<open>managers/detection.py\<close>

definition get_python_commands :: "host \<Rightarrow> string list list" where
  "get_python_commands h =
     (if sys_executable h \<noteq> [] then [[sys_executable h]] else [])
     @ map (\<lambda>cmd. [cmd]) (filter (which h) [''python3'', ''python'', ''py''])"

definition detect_installed_managers :: "host \<Rightarrow> bool dict" where
  "detect_installed_managers h =
     map (\<lambda>name.
            if name = ''pip''
            then (name, list_ex (\<lambda>cmd. which h (hd cmd))
                                (filter (\<lambda>cmd. cmd \<noteq> []) (get_python_commands h)))
            else (name, which h name))
         (map fst MANAGER_INSTALL_HANDLERS)"

text \<open>
  The Linux branch returns at the first native manager one of whose commands is on the
  path.
\<close>

fun first_linux_manager :: "host \<Rightarrow> (string \<times> string list) list \<Rightarrow> string list" where
  "first_linux_manager h [] = [''snap'', ''flatpak'']"
| "first_linux_manager h ((mgr, commands) # rest) =
     (if list_ex (which h) commands then [mgr, ''snap'', ''flatpak'']
      else first_linux_manager h rest)"

definition system_manager_priority :: "host \<Rightarrow> string list" where
  "system_manager_priority h =
     (let ot = os_type h in
      if ot = ''macos'' then [''brew'', ''snap'', ''flatpak'']
      else if ot = ''windows'' then [''winget'', ''choco'']
      else if ot = ''linux'' then
        first_linux_manager h
          [(''apt'', [''apt'', ''apt-get'']), (''dnf'', [''dnf'']), (''yum'', [''yum'']),
           (''pacman'', [''pacman'']), (''zypper'', [''zypper'']), (''apk'', [''apk''])]
      else [''snap'', ''flatpak''])"

definition looks_like_python_pkg :: "string \<Rightarrow> bool" where
  "looks_like_python_pkg pkg =
     (let python_indicators = [''=='', ''>='', ''<='', ''~='', ''!='', ''['', '']''];
          python_common = [''py'', ''django'', ''flask'', ''numpy'', ''pandas'', ''requests'',
                           ''boto3'', ''tensorflow'', ''torch'']
      in if list_ex (\<lambda>indicator. str_in indicator pkg) python_indicators then True
         else if list_ex (\<lambda>prefix. startswith (lower pkg) prefix) python_common then True
         else False)"

definition looks_like_npm_pkg :: "string \<Rightarrow> bool" where
  "looks_like_npm_pkg pkg =
     (let npm_indicators = startswith pkg ''@'';
          npm_common = [''express'', ''react'', ''vue'', ''angular'', ''typescript'', ''eslint'',
                        ''webpack'', ''lodash'', ''axios'']
      in if npm_indicators then True
         else if lower pkg \<in> set npm_common then True
         else False)"

text \<open>The two loops of the ranker: append a manager that is available and not yet listed.\<close>

definition add_system_manager :: "bool dict \<Rightarrow> string \<Rightarrow> string list \<Rightarrow> string list" where
  "add_system_manager installed mgr prefs =
     (if available installed mgr \<and> mgr \<notin> set prefs then prefs @ [mgr] else prefs)"

definition add_remaining_manager :: "string \<times> bool \<Rightarrow> string list \<Rightarrow> string list" where
  "add_remaining_manager item prefs =
     (case item of (mgr, is_installed) \<Rightarrow>
        if is_installed \<and> mgr \<notin> set prefs then prefs @ [mgr] else prefs)"

definition ordered_install_manager_candidates :: "host \<Rightarrow> string \<Rightarrow> bool dict \<Rightarrow> string list" where
  "ordered_install_manager_candidates h pkg installed =
     (let prefs = [];
          prefs = (if looks_like_python_pkg pkg \<and> available installed ''pip''
                   then prefs @ [''pip''] else prefs);
          prefs = (if looks_like_npm_pkg pkg \<and> available installed ''npm''
                   then prefs @ [''npm''] else prefs);
          prefs = fold (add_system_manager installed) (system_manager_priority h) prefs;
          prefs = fold add_remaining_manager installed prefs
      in prefs)"

section \<open>managers/commands.py\<close>

definition pip_install :: "host \<Rightarrow> string \<Rightarrow> string list" where
  "pip_install h pkg =
     (case find (\<lambda>cmd. which h (hd cmd)) (get_python_commands h) of
        Some cmd \<Rightarrow> cmd @ [''-m'', ''pip'', ''install'', ''--user'', pkg]
      | None \<Rightarrow> [sys_executable h, ''-m'', ''pip'', ''install'', ''--user'', pkg])"

definition npm_install :: "string \<Rightarrow> string list" where
  "npm_install pkg = [''npm'', ''install'', ''-g'', pkg]"

definition apt_install :: "string \<Rightarrow> string list" where
  "apt_install pkg = [''sudo'', ''apt'', ''install'', ''-y'', pkg]"

definition dnf_install :: "string \<Rightarrow> string list" where
  "dnf_install pkg = [''sudo'', ''dnf'', ''install'', ''-y'', pkg]"

definition yum_install :: "string \<Rightarrow> string list" where
  "yum_install pkg = [''sudo'', ''yum'', ''install'', ''-y'', pkg]"

definition pacman_install :: "string \<Rightarrow> string list" where
  "pacman_install pkg = [''sudo'', ''pacman'', ''-S'', ''--noconfirm'', pkg]"

definition zypper_install :: "string \<Rightarrow> string list" where
  "zypper_install pkg = [''sudo'', ''zypper'', ''--non-interactive'', ''install'', pkg]"

definition apk_install :: "string \<Rightarrow> string list" where
  "apk_install pkg = [''sudo'', ''apk'', ''add'', pkg]"

definition brew_install :: "string \<Rightarrow> string list" where
  "brew_install pkg = [''brew'', ''install'', pkg]"

definition choco_install :: "string \<Rightarrow> string list" where
  "choco_install pkg = [''choco'', ''install'', ''-y'', pkg]"

definition winget_install :: "string \<Rightarrow> string list" where
  "winget_install pkg =
     [''winget'', ''install'', ''--silent'', ''--accept-package-agreements'',
      ''--accept-source-agreements'', pkg]"

definition snap_install :: "string \<Rightarrow> string list" where
  "snap_install pkg = [''sudo'', ''snap'', ''install'', pkg]"

definition flatpak_install :: "string \<Rightarrow> string list" where
  "flatpak_install pkg = [''flatpak'', ''install'', ''-y'', pkg]"

definition pip_remove :: "host \<Rightarrow> string \<Rightarrow> string list" where
  "pip_remove h pkg =
     (case find (\<lambda>cmd. which h (hd cmd)) (get_python_commands h) of
        Some cmd \<Rightarrow> cmd @ [''-m'', ''pip'', ''uninstall'', ''-y'', pkg]
      | None \<Rightarrow> [sys_executable h, ''-m'', ''pip'', ''uninstall'', ''-y'', pkg])"

definition npm_remove :: "string \<Rightarrow> string list" where
  "npm_remove pkg = [''npm'', ''uninstall'', ''-g'', pkg]"

definition brew_remove :: "string \<Rightarrow> string list" where
  "brew_remove pkg = [''brew'', ''uninstall'', pkg]"

definition apt_remove :: "string \<Rightarrow> string list" where
  "apt_remove pkg = [''sudo'', ''apt'', ''remove'', ''-y'', pkg]"

definition dnf_remove :: "string \<Rightarrow> string list" where
  "dnf_remove pkg = [''sudo'', ''dnf'', ''remove'', ''-y'', pkg]"

definition yum_remove :: "string \<Rightarrow> string list" where
  "yum_remove pkg = [''sudo'', ''yum'', ''remove'', ''-y'', pkg]"

definition pacman_remove :: "string \<Rightarrow> string list" where
  "pacman_remove pkg = [''sudo'', ''pacman'', ''-R'', ''--noconfirm'', pkg]"

definition snap_remove :: "string \<Rightarrow> string list" where
  "snap_remove pkg = [''sudo'', ''snap'', ''remove'', pkg]"

definition flatpak_remove :: "string \<Rightarrow> string list" where
  "flatpak_remove pkg = [''flatpak'', ''uninstall'', ''-y'', pkg]"

text \<open>
  A handler builds the argument vector for a package on a host, or raises (\<open>Inl\<close>). The
  handlers of the two tables always return.
\<close>

type_synonym cmd_builder = "host \<Rightarrow> string \<Rightarrow> string + string list"

definition INSTALL_HANDLERS :: "cmd_builder dict" where
  "INSTALL_HANDLERS =
     [(''pip'', \<lambda>h pkg. Inr (pip_install h pkg)), (''npm'', \<lambda>h pkg. Inr (npm_install pkg)),
      (''apt'', \<lambda>h pkg. Inr (apt_install pkg)), (''dnf'', \<lambda>h pkg. Inr (dnf_install pkg)),
      (''yum'', \<lambda>h pkg. Inr (yum_install pkg)), (''pacman'', \<lambda>h pkg. Inr (pacman_install pkg)),
      (''zypper'', \<lambda>h pkg. Inr (zypper_install pkg)), (''apk'', \<lambda>h pkg. Inr (apk_install pkg)),
      (''brew'', \<lambda>h pkg. Inr (brew_install pkg)), (''choco'', \<lambda>h pkg. Inr (choco_install pkg)),
      (''winget'', \<lambda>h pkg. Inr (winget_install pkg)), (''snap'', \<lambda>h pkg. Inr (snap_install pkg)),
      (''flatpak'', \<lambda>h pkg. Inr (flatpak_install pkg))]"

definition REMOVE_HANDLERS :: "cmd_builder dict" where
  "REMOVE_HANDLERS =
     [(''pip'', \<lambda>h pkg. Inr (pip_remove h pkg)), (''npm'', \<lambda>h pkg. Inr (npm_remove pkg)),
      (''brew'', \<lambda>h pkg. Inr (brew_remove pkg)), (''apt'', \<lambda>h pkg. Inr (apt_remove pkg)),
      (''dnf'', \<lambda>h pkg. Inr (dnf_remove pkg)), (''yum'', \<lambda>h pkg. Inr (yum_remove pkg)),
      (''pacman'', \<lambda>h pkg. Inr (pacman_remove pkg)), (''snap'', \<lambda>h pkg. Inr (snap_remove pkg)),
      (''flatpak'', \<lambda>h pkg. Inr (flatpak_remove pkg))]"

section \<open>managers/installer.py\<close>

text \<open>\<open>cprint(text, level)\<close> adds a console line; \<open>sep.join(parts)\<close>.\<close>

definition cprint :: "message \<Rightarrow> level \<Rightarrow> event list \<Rightarrow> event list" where
  "cprint text lvl evs = evs @ [Cprint text lvl]"

fun join :: "string \<Rightarrow> string list \<Rightarrow> string" where
  "join sep [] = []"
| "join sep [x] = x"
| "join sep (x # y # ys) = x @ sep @ join sep (y # ys)"

text \<open>
  \<open>match.group(n)\<close> on the groups of a match; a group that does not exist raises in
  Python, which \<open>_extract_package_version\<close> swallows like a failed match.
\<close>

definition group :: "string list \<Rightarrow> nat \<Rightarrow> string option" where
  "group gs n = (if 1 \<le> n \<and> n \<le> length gs then Some (gs ! (n - 1)) else None)"

definition extract_package_version :: "host \<Rightarrow> string \<Rightarrow> string \<Rightarrow> string" where
  "extract_package_version h output mgr =
     (case (if mgr = ''pip'' then
              (case re_search h PipInstalled output of Some gs \<Rightarrow> group gs 2 | None \<Rightarrow> None)
            else if mgr = ''npm'' then
              (case re_search h NpmAtVersion output of Some gs \<Rightarrow> group gs 1 | None \<Rightarrow> None)
            else if mgr \<in> set [''apt'', ''dnf'', ''yum''] then
              (case re_search h DottedVersion output of Some gs \<Rightarrow> group gs 1 | None \<Rightarrow> None)
            else None) of
        Some v \<Rightarrow> v
      | None \<Rightarrow> ''installed'')"

text \<open>
  One orchestration attempt is a manager with the result recorded for it. The state of
  an orchestration is the attempts so far and the events so far.
\<close>

type_synonym attempt = "string \<times> RunResult"

text \<open>
  The body of the \<open>try\<close> block of the install loop, for candidate number \<open>i\<close> of \<open>n\<close>.
  It ends in one of three ways: \<open>Inr True\<close>, the function returns
  \<open>(True, attempts)\<close>; \<open>Inr False\<close>, the body ran to its end and the loop goes on;
  \<open>Inl e\<close>, an exception with text \<open>e\<close> left the body, with the state as it was when
  it was raised.
\<close>

definition install_try ::
  "host \<Rightarrow> string \<Rightarrow> nat \<Rightarrow> nat \<Rightarrow> string \<Rightarrow> cmd_builder \<Rightarrow> attempt list \<times> event list
     \<Rightarrow> (string + bool) \<times> attempt list \<times> event list" where
  "install_try h pkg i n mgr cmd_builder st =
     (case st of (attempts, evs) \<Rightarrow>
      (case cmd_builder h pkg of
         Inl e \<Rightarrow> (Inl e, attempts, evs)
       | Inr cmd \<Rightarrow>
          (let evs = cprint (AttemptInstalling i n mgr) INFO evs;
               answer = run_command h evs cmd 1800 0;
               evs = evs @ [Run cmd 1800 0]
           in case answer of
                Inl e \<Rightarrow> (Inl e, attempts, evs)
              | Inr res \<Rightarrow>
                 (let attempts = attempts @ [(mgr, res)] in
                  if ok res then
                    (let version = extract_package_version h (out res) mgr;
                         raised = db_add_package h evs pkg version mgr (join '' '' cmd);
                         evs = evs @ [DbAdd pkg version mgr (join '' '' cmd)]
                     in case raised of
                          Some e \<Rightarrow> (Inl e, attempts, evs)
                        | None \<Rightarrow> (Inr True, attempts, cprint (InstalledVia pkg mgr) SUCCESS evs))
                  else (Inr False, attempts, cprint (ManagerFailed mgr res) WARNING evs)))))"

text \<open>
  The \<open>except Exception\<close> handler of both loops records a synthetic failed result
  carrying the exception text.
\<close>

definition err_result :: "string \<Rightarrow> RunResult" where
  "err_result e = \<lparr>ok = False, code = - 1, out = [], err = e\<rparr>"

text \<open>
  One iteration of the install loop for a manager that has a handler: the \<open>try\<close>
  block with its handler. The result is \<open>True\<close> when the function returns
  \<open>(True, attempts)\<close> and \<open>False\<close> when the loop goes on.
\<close>

definition install_attempt ::
  "host \<Rightarrow> string \<Rightarrow> nat \<Rightarrow> nat \<Rightarrow> string \<Rightarrow> cmd_builder \<Rightarrow> attempt list \<times> event list
     \<Rightarrow> bool \<times> attempt list \<times> event list" where
  "install_attempt h pkg i n mgr cmd_builder st =
     (case install_try h pkg i n mgr cmd_builder st of
        (Inr returned, attempts, evs) \<Rightarrow> (returned, attempts, evs)
      | (Inl e, attempts, evs) \<Rightarrow>
          (False, attempts @ [(mgr, err_result e)],
           cprint (ManagerFailedException mgr e) WARNING evs))"

text \<open>The install loop over \<open>enumerate(candidates, 1)\<close>.\<close>

fun install_loop ::
  "host \<Rightarrow> string \<Rightarrow> nat \<Rightarrow> (nat \<times> string) list \<Rightarrow> attempt list \<times> event list
     \<Rightarrow> (bool \<times> attempt list) \<times> event list" where
  "install_loop h pkg n [] (attempts, evs) =
     ((False, attempts), cprint (FailedToInstall pkg) ERROR evs)"
| "install_loop h pkg n ((i, mgr) # rest) (attempts, evs) =
     (case map_of INSTALL_HANDLERS mgr of
        None \<Rightarrow> install_loop h pkg n rest (attempts, evs)
      | Some cmd_builder \<Rightarrow>
         (case install_attempt h pkg i n mgr cmd_builder (attempts, evs) of
            (True, attempts, evs) \<Rightarrow> ((True, attempts), evs)
          | (False, attempts, evs) \<Rightarrow> install_loop h pkg n rest (attempts, evs)))"

text \<open>
  Lines 91 to 98 of \<open>install_package\<close>: a preferred manager that has an install handler
  and is available moves to the front; any other non-empty one gives a warning and
  leaves the candidates as they are.
\<close>

definition apply_preferred_manager ::
  "bool dict \<Rightarrow> string option \<Rightarrow> string list \<Rightarrow> event list \<Rightarrow> string list \<times> event list" where
  "apply_preferred_manager installed preferred_manager candidates evs =
     (case preferred_manager of
        None \<Rightarrow> (candidates, evs)
      | Some p \<Rightarrow>
          if p = [] then (candidates, evs)
          else
           (let pm = lower p in
            if pm \<in> set (map fst INSTALL_HANDLERS) \<and> available installed pm
            then (pm # filter (\<lambda>m. m \<noteq> pm) candidates, evs)
            else
             (let available_managers = map fst (filter snd installed)
              in (candidates,
                  cprint (PreferredNotAvailable p available_managers) WARNING evs))))"

definition install_package ::
  "host \<Rightarrow> string \<Rightarrow> string option \<Rightarrow> (bool \<times> attempt list) \<times> event list" where
  "install_package h pkg preferred_manager =
     (let evs = cprint (PreparingInstall pkg) INFO [];
          installed = detect_installed_managers h
      in if \<not> list_ex id (map snd installed)
         then ((False, []), cprint NoSupportedManagers ERROR evs)
         else
          (let attempts = [];
               candidates = ordered_install_manager_candidates h pkg installed;
               (candidates, evs) =
                  apply_preferred_manager installed preferred_manager candidates evs
           in if candidates = []
              then ((False, []), cprint NoManagersForInstallation ERROR evs)
              else
               (let evs = cprint InstallationPlan CYAN evs;
                    evs = fold (\<lambda>(i, m). cprint (PlanEntry i m) MUTED)
                               (enumerate 1 candidates) evs
                in install_loop h pkg (length candidates) (enumerate 1 candidates)
                     (attempts, evs))))"

text \<open>The \<open>try\<close> block of the remove loop, with the same three endings.\<close>

definition remove_try ::
  "host \<Rightarrow> string \<Rightarrow> string \<Rightarrow> cmd_builder \<Rightarrow> attempt list \<times> event list
     \<Rightarrow> (string + bool) \<times> attempt list \<times> event list" where
  "remove_try h pkg mgr cmd_builder st =
     (case st of (attempts, evs) \<Rightarrow>
      (case cmd_builder h pkg of
         Inl e \<Rightarrow> (Inl e, attempts, evs)
       | Inr cmd \<Rightarrow>
          (let evs = cprint (AttemptingRemoval mgr) INFO evs;
               answer = run_command h evs cmd 600 0;
               evs = evs @ [Run cmd 600 0]
           in case answer of
                Inl e \<Rightarrow> (Inl e, attempts, evs)
              | Inr res \<Rightarrow>
                 (let attempts = attempts @ [(mgr, res)] in
                  if ok res then
                    (let raised = db_remove_package h evs pkg mgr;
                         evs = evs @ [DbRemove pkg mgr]
                     in case raised of
                          Some e \<Rightarrow> (Inl e, attempts, evs)
                        | None \<Rightarrow> (Inr True, attempts, cprint (RemovedVia pkg mgr) SUCCESS evs))
                  else (Inr False, attempts, cprint (ManagerFailed mgr res) WARNING evs)))))"

definition remove_attempt ::
  "host \<Rightarrow> string \<Rightarrow> string \<Rightarrow> cmd_builder \<Rightarrow> attempt list \<times> event list
     \<Rightarrow> bool \<times> attempt list \<times> event list" where
  "remove_attempt h pkg mgr cmd_builder st =
     (case remove_try h pkg mgr cmd_builder st of
        (Inr returned, attempts, evs) \<Rightarrow> (returned, attempts, evs)
      | (Inl e, attempts, evs) \<Rightarrow>
          (False, attempts @ [(mgr, err_result e)],
           cprint (ManagerFailedException mgr e) WARNING evs))"

fun remove_loop ::
  "host \<Rightarrow> string \<Rightarrow> string list \<Rightarrow> attempt list \<times> event list
     \<Rightarrow> (bool \<times> attempt list) \<times> event list" where
  "remove_loop h pkg [] (attempts, evs) =
     ((False, attempts), cprint (FailedToRemove pkg) ERROR evs)"
| "remove_loop h pkg (mgr # rest) (attempts, evs) =
     (case map_of REMOVE_HANDLERS mgr of
        None \<Rightarrow> remove_loop h pkg rest (attempts, evs)
      | Some cmd_builder \<Rightarrow>
         (case remove_attempt h pkg mgr cmd_builder (attempts, evs) of
            (True, attempts, evs) \<Rightarrow> ((True, attempts), evs)
          | (False, attempts, evs) \<Rightarrow> remove_loop h pkg rest (attempts, evs)))"

text \<open>
  \<open>remove_package\<close>. \<open>if manager:\<close> holds for a manager that is given and not the
  empty string.
\<close>

definition remove_package ::
  "host \<Rightarrow> string \<Rightarrow> string option \<Rightarrow> (bool \<times> attempt list) \<times> event list" where
  "remove_package h pkg manager_arg =
     (let evs = cprint (PreparingRemove pkg) INFO [];
          installed = detect_installed_managers h
      in if \<not> list_ex id (map snd installed)
         then ((False, []), cprint NoSupportedManagers ERROR evs)
         else
          (let attempts = [];
               supplied = (case manager_arg of None \<Rightarrow> [] | Some m \<Rightarrow> m);
               chosen =
                 (if supplied \<noteq> [] then
                    (if lower supplied \<in> set (map fst REMOVE_HANDLERS) \<and>
                        available installed (lower supplied)
                     then Some [lower supplied]
                     else None)
                  else Some (filter (\<lambda>m. m \<in> set (map fst REMOVE_HANDLERS))
                               (ordered_install_manager_candidates h pkg installed)))
           in case chosen of
                None \<Rightarrow>
                  ((False, []), cprint (ManagerNotAvailableForRemoval supplied) ERROR evs)
              | Some candidates \<Rightarrow>
                  if candidates = []
                  then ((False, []), cprint NoManagersForRemoval ERROR evs)
                  else remove_loop h pkg candidates (attempts, evs)))"

section \<open>search/engine.py\<close>

text \<open>
  \<open>d.get(k, default)\<close> on a value that should be a dictionary (anything else has no
  \<open>get\<close> and raises), \<open>v[:200]\<close> (defined on strings and lists), and the truth value
  of a value as \<open>or\<close> reads it.
\<close>

definition dict_get :: "pyval \<Rightarrow> string \<Rightarrow> pyval \<Rightarrow> string + pyval" where
  "dict_get d k dflt =
     (case d of
        PDict items \<Rightarrow> Inr (case map_of items k of Some v \<Rightarrow> v | None \<Rightarrow> dflt)
      | _ \<Rightarrow> Inl ''AttributeError'')"

definition slice_200 :: "pyval \<Rightarrow> string + pyval" where
  "slice_200 v =
     (case v of
        PStr s \<Rightarrow> Inr (PStr (take 200 s))
      | PList xs \<Rightarrow> Inr (PList (take 200 xs))
      | _ \<Rightarrow> Inl ''TypeError'')"

definition truthy :: "pyval \<Rightarrow> bool" where
  "truthy v =
     (case v of
        PNone \<Rightarrow> False
      | PBool b \<Rightarrow> b
      | PNum x \<Rightarrow> x \<noteq> 0
      | PStr s \<Rightarrow> s \<noteq> []
      | PList xs \<Rightarrow> xs \<noteq> []
      | PDict items \<Rightarrow> items \<noteq> [])"

text \<open>
  \<open>_parse_pypi_info\<close>: the keyword arguments are evaluated in the order written, and
  the first one that raises ends the call.
\<close>

definition parse_pypi_info :: "pyval \<Rightarrow> string + SearchResult" where
  "parse_pypi_info data =
     (case dict_get data ''info'' (PDict []) of
        Inl e \<Rightarrow> Inl e
      | Inr info \<Rightarrow>
     (case dict_get info ''name'' (PStr []) of
        Inl e \<Rightarrow> Inl e
      | Inr name_v \<Rightarrow>
     (case dict_get info ''summary'' (PStr []) of
        Inl e \<Rightarrow> Inl e
      | Inr summary \<Rightarrow>
     (case slice_200 summary of
        Inl e \<Rightarrow> Inl e
      | Inr description_v \<Rightarrow>
     (case dict_get info ''version'' (PStr ''unknown'') of
        Inl e \<Rightarrow> Inl e
      | Inr version_v \<Rightarrow>
     (case dict_get info ''home_page'' PNone of
        Inl e \<Rightarrow> Inl e
      | Inr home_page \<Rightarrow>
     (case (if truthy home_page then Inr home_page
            else dict_get info ''project_url'' PNone) of
        Inl e \<Rightarrow> Inl e
      | Inr homepage_v \<Rightarrow>
          Inr \<lparr>name = name_v, description = description_v, version = version_v,
               manager = ''pip'', homepage = homepage_v, relevance_score = 50\<rparr>)))))))"

text \<open>\<open>_search_pypi\<close>: the bare \<open>except\<close> turns every exception into the empty list.\<close>

definition search_pypi :: "host \<Rightarrow> string \<Rightarrow> SearchResult list" where
  "search_pypi h query =
     (let url = ''https://pypi.org/pypi/'' @ query @ ''/json'' in
      case session_get h url 10 of
        Inl e \<Rightarrow> []
      | Inr r \<Rightarrow>
          if status_code r = 200 then
            (case json r of
               Inl e \<Rightarrow> []
             | Inr data \<Rightarrow>
                 (case parse_pypi_info data of Inl e \<Rightarrow> [] | Inr result \<Rightarrow> [result]))
          else [])"

text \<open>
  The table \<open>manager_funcs\<close> of \<open>search\<close>. A search function returns its results or
  raises; the twelve functions other than \<open>_search_pypi\<close> are the host's
  \<open>search_backend\<close>.
\<close>

type_synonym search_func = "host \<Rightarrow> string \<Rightarrow> string + SearchResult list"

definition manager_funcs :: "search_func dict" where
  "manager_funcs =
     [(''pip'', \<lambda>h query. Inr (search_pypi h query)),
      (''npm'', \<lambda>h. search_backend h ''npm''), (''brew'', \<lambda>h. search_backend h ''brew''),
      (''apt'', \<lambda>h. search_backend h ''apt''), (''dnf'', \<lambda>h. search_backend h ''dnf''),
      (''yum'', \<lambda>h. search_backend h ''yum''), (''pacman'', \<lambda>h. search_backend h ''pacman''),
      (''zypper'', \<lambda>h. search_backend h ''zypper''), (''apk'', \<lambda>h. search_backend h ''apk''),
      (''choco'', \<lambda>h. search_backend h ''choco''), (''winget'', \<lambda>h. search_backend h ''winget''),
      (''snap'', \<lambda>h. search_backend h ''snap''), (''flatpak'', \<lambda>h. search_backend h ''flatpak'')]"

text \<open>
  \<open>all_results.sort(key=lambda x: x.relevance_score, reverse=True)\<close>: Python's sort is
  stable, also with \<open>reverse=True\<close>, so the result is the list in non-increasing score
  order in which results of equal score keep their order. \<open>xs[:limit]\<close>: a negative
  limit counts from the end.
\<close>

definition sort_by_relevance :: "SearchResult list \<Rightarrow> SearchResult list" where
  "sort_by_relevance xs = sort_key (\<lambda>x. - relevance_score x) xs"

definition slice_upto :: "'a list \<Rightarrow> int \<Rightarrow> 'a list" where
  "slice_upto xs limit =
     (if 0 \<le> limit then take (nat limit) xs else take (nat (int (length xs) + limit)) xs)"

text \<open>
  The body of the loop over \<open>as_completed\<close>: the results of a task that returned are
  added, a task that raised adds nothing.
\<close>

definition collect ::
  "string \<times> (string + SearchResult list) \<Rightarrow> SearchResult list \<Rightarrow> SearchResult list" where
  "collect future all_results =
     (case snd future of Inr results \<Rightarrow> all_results @ results | Inl e \<Rightarrow> all_results)"

text \<open>
  The managers \<open>search\<close> targets: the given one (if it is not the empty string) when it
  is available, otherwise every available one.
\<close>

definition target_managers :: "host \<Rightarrow> string option \<Rightarrow> string list" where
  "target_managers h manager_arg =
     (let installed = detect_installed_managers h;
          supplied = (case manager_arg of None \<Rightarrow> [] | Some m \<Rightarrow> m)
      in if supplied \<noteq> [] then
           (if available installed (lower supplied) then [lower supplied] else [])
         else map fst (filter snd installed))"

text \<open>
  The \<open>with\<close> block of \<open>search\<close>. A future is the manager it was submitted for and the
  outcome of its task. \<open>as_completed(future_to_manager, timeout=120)\<close> yields the futures
  that complete before the deadline, in the order of their completion, and then, if a
  future is still not done, raises \<open>TimeoutError\<close> from the \<open>for\<close> statement, outside the
  \<open>try\<close> of the loop body; the exception leaves the block and \<open>search\<close>. The value is
  \<open>all_results\<close> at the end of the block.
\<close>

definition gather :: "host \<Rightarrow> string \<Rightarrow> string list \<Rightarrow> string + SearchResult list" where
  "gather h query targets =
     (let futures =
            List.map_filter
              (\<lambda>mgr. map_option (\<lambda>func. (mgr, func h query)) (map_of manager_funcs mgr))
              targets;
          completed =
            sort_key (\<lambda>future. completion_rank h (fst future))
              (filter (\<lambda>future. finished_in_time h (fst future)) futures);
          all_results = fold collect completed []
      in if list_all (\<lambda>future. finished_in_time h (fst future)) futures
         then Inr all_results
         else Inl ''TimeoutError'')"

text \<open>
  \<open>RealSearchEngine.search\<close>. Its console lines and its progress bar are left out:
  they do not change what it returns.
\<close>

definition search :: "host \<Rightarrow> string \<Rightarrow> string option \<Rightarrow> int \<Rightarrow> string + SearchResult list" where
  "search h query manager_arg limit =
     (let targets = target_managers h manager_arg
      in if targets = [] then Inr []
         else
          (case gather h query targets of
             Inl e \<Rightarrow> Inl e
           | Inr all_results \<Rightarrow> Inr (slice_upto (sort_by_relevance all_results) limit)))"

section \<open>Example hosts\<close>

definition ok_result :: RunResult where
  "ok_result = \<lparr>ok = True, code = 0, out = [], err = []\<rparr>"

text \<open>
  A Linux host with nothing on the path, on which every command succeeds, the record
  store works and the network is down; the other hosts change it where they say.
\<close>

definition bare_host :: host where
  "bare_host =
     \<lparr>platform_system = ''Linux'', which = (\<lambda>n. False), sys_executable = [],
      run_command = (\<lambda>evs cmd t r. Inr ok_result),
      db_add_package = (\<lambda>evs p v m c. None),
      db_remove_package = (\<lambda>evs p m. None),
      re_search = (\<lambda>p t. None),
      session_get = (\<lambda>url t. Inl ''ConnectionError''),
      search_backend = (\<lambda>m q. Inr []),
      finished_in_time = (\<lambda>m. True),
      completion_rank = (\<lambda>m. 0)\<rparr>"

definition debian_host :: host where
  "debian_host = bare_host\<lparr>which := (\<lambda>n. n = ''python3'' \<or> n = ''apt'')\<rparr>"

definition scenario_map :: "bool dict" where
  "scenario_map = [(''pip'', True), (''apt'', True), (''npm'', False)]"

text \<open>A host with zypper, which has an install handler and no remove handler.\<close>

definition suse_host :: host where
  "suse_host = bare_host\<lparr>which := (\<lambda>n. n = ''python3'' \<or> n = ''zypper'')\<rparr>"

text \<open>A host like \<open>debian_host\<close> on which \<open>run_command\<close> raises for every command.\<close>

definition broken_runner_host :: host where
  "broken_runner_host =
     debian_host\<lparr>run_command := (\<lambda>evs cmd t r. Inl ''OSError'')\<rparr>"

text \<open>A host like \<open>debian_host\<close> whose record store raises on every write.\<close>

definition locked_db_host :: host where
  "locked_db_host =
     debian_host\<lparr>db_add_package := (\<lambda>evs p v m c. Some ''database is locked'')\<rparr>"

text \<open>A handler that raises, and the handler of apt in \<open>INSTALL_HANDLERS\<close>.\<close>

definition failing_builder :: cmd_builder where
  "failing_builder h pkg = Inl ''cannot build''"

definition apt_builder :: cmd_builder where
  "apt_builder h pkg = Inr (apt_install pkg)"

text \<open>
  A host with pip and npm: PyPI answers with the project \<open>flask\<close>, and the npm registry
  search returns two packages, the second with the same score as the PyPI result. The
  pip task completes first.
\<close>

definition flask_json :: pyval where
  "flask_json =
     PDict [(''info'', PDict [(''name'', PStr ''Flask''), (''summary'', PStr ''A web framework''),
                             (''version'', PStr ''3.0.0''), (''home_page'', PNone),
                             (''project_url'', PStr ''https://pypi.org/project/Flask/'')])]"

definition flask_result :: SearchResult where
  "flask_result =
     \<lparr>name = PStr ''Flask'', description = PStr ''A web framework'', version = PStr ''3.0.0'',
      manager = ''pip'', homepage = PStr ''https://pypi.org/project/Flask/'',
      relevance_score = 50\<rparr>"

definition flask_js :: SearchResult where
  "flask_js =
     \<lparr>name = PStr ''flask-js'', description = PStr ''port'', version = PStr ''1.0.0'',
      manager = ''npm'', homepage = PNone, relevance_score = 80\<rparr>"

definition flasky :: SearchResult where
  "flasky =
     \<lparr>name = PStr ''flasky'', description = PStr ''toy'', version = PStr ''0.1.0'',
      manager = ''npm'', homepage = PNone, relevance_score = 50\<rparr>"

definition npm_results :: "SearchResult list" where
  "npm_results = [flask_js, flasky]"

definition registry_host :: host where
  "registry_host =
     bare_host\<lparr>which := (\<lambda>n. n = ''python3'' \<or> n = ''npm''),
               session_get := (\<lambda>url t. Inr \<lparr>status_code = 200, json = Inr flask_json\<rparr>),
               search_backend := (\<lambda>m q. Inr npm_results),
               completion_rank := (\<lambda>m. if m = ''pip'' then 0 else 1)\<rparr>"

text \<open>The same host with the npm search raising, and with the npm task not done in time.\<close>

definition raising_npm_host :: host where
  "raising_npm_host = registry_host\<lparr>search_backend := (\<lambda>m q. Inl ''ValueError'')\<rparr>"

definition slow_npm_host :: host where
  "slow_npm_host = registry_host\<lparr>finished_in_time := (\<lambda>m. m \<noteq> ''npm'')\<rparr>"

section \<open>Auxiliary definitions for the statements\<close>

text \<open>
  The candidate list after the two package-name tests of
  \<open>_ordered_install_manager_candidates\<close>, before its two loops.
\<close>

definition heuristic_prefs :: "string \<Rightarrow> bool dict \<Rightarrow> string list" where
  "heuristic_prefs pkg installed =
     (if looks_like_python_pkg pkg \<and> available installed ''pip'' then [''pip''] else [])
     @ (if looks_like_npm_pkg pkg \<and> available installed ''npm'' then [''npm''] else [])"

text \<open>The external commands among the events, in the order they were run.\<close>

fun commands_run :: "event list \<Rightarrow> string list list" where
  "commands_run [] = []"
| "commands_run (Run cmd t r # evs) = cmd # commands_run evs"
| "commands_run (Cprint text lvl # evs) = commands_run evs"
| "commands_run (DbAdd p v m c # evs) = commands_run evs"
| "commands_run (DbRemove p m # evs) = commands_run evs"

text \<open>
  The attempts \<open>new\<close> of a run over \<open>candidates\<close> that stopped at the first success: one
  attempt for each candidate of a prefix, in order; on success only the last one is ok,
  on failure every candidate was attempted and none is ok.
\<close>

definition first_success :: "bool \<Rightarrow> string list \<Rightarrow> attempt list \<Rightarrow> bool" where
  "first_success success candidates new =
     (map fst new = take (length new) candidates \<and>
      (if success
       then new \<noteq> [] \<and> ok (snd (last new)) \<and> list_all (\<lambda>a. \<not> ok (snd a)) (butlast new)
       else length new = length candidates \<and> list_all (\<lambda>a. \<not> ok (snd a)) new))"

text \<open>
  The test of line 93 of \<open>install_package\<close> on the preferred manager, and the test of
  line 162 of \<open>remove_package\<close> on the explicit manager.
\<close>

definition preferred_valid :: "host \<Rightarrow> string \<Rightarrow> bool" where
  "preferred_valid h p =
     (lower p \<in> set (map fst INSTALL_HANDLERS) \<and>
      available (detect_installed_managers h) (lower p))"

definition removal_valid :: "host \<Rightarrow> string \<Rightarrow> bool" where
  "removal_valid h m =
     (lower m \<in> set (map fst REMOVE_HANDLERS) \<and>
      available (detect_installed_managers h) (lower m))"

text \<open>
  An exception with text \<open>e\<close> is raised while the command of a manager is constructed
  (the handler raises) or executed (\<open>run_command\<close>, called with the events \<open>evs\<close> so
  far, raises).
\<close>

definition command_raises ::
  "host \<Rightarrow> cmd_builder \<Rightarrow> string \<Rightarrow> event list \<Rightarrow> nat \<Rightarrow> string \<Rightarrow> bool" where
  "command_raises h cmd_builder pkg evs timeout e =
     (case cmd_builder h pkg of
        Inl e' \<Rightarrow> e' = e
      | Inr cmd \<Rightarrow> run_command h evs cmd timeout 0 = Inl e)"

text \<open>The candidate list \<open>install_package\<close> iterates over, when a manager is available.\<close>

definition install_candidates :: "host \<Rightarrow> string \<Rightarrow> string option \<Rightarrow> string list" where
  "install_candidates h pkg preferred_manager =
     fst (apply_preferred_manager (detect_installed_managers h) preferred_manager
            (ordered_install_manager_candidates h pkg (detect_installed_managers h)) [])"

section \<open>The candidate ranker\<close>

lemma add_system_manager_inv:
  "distinct prefs \<Longrightarrow> \<forall>m\<in>set prefs. available installed m \<Longrightarrow>
   distinct (add_system_manager installed mgr prefs) \<and>
   (\<forall>m\<in>set (add_system_manager installed mgr prefs). available installed m)"
  by (simp add: add_system_manager_def)

lemma fold_add_system_manager_inv:
  "distinct prefs \<Longrightarrow> \<forall>m\<in>set prefs. available installed m \<Longrightarrow>
   distinct (fold (add_system_manager installed) ms prefs) \<and>
   (\<forall>m\<in>set (fold (add_system_manager installed) ms prefs). available installed m)"
proof (induction ms arbitrary: prefs)
  case Nil
  then show ?case by simp
next
  case (Cons a ms)
  have "distinct (add_system_manager installed a prefs)"
    and "\<forall>m\<in>set (add_system_manager installed a prefs). available installed m"
    using add_system_manager_inv[OF Cons.prems] by blast+
  then show ?case using Cons.IH by simp
qed

lemma fold_add_remaining_manager_inv:
  "distinct prefs \<Longrightarrow> \<forall>m\<in>set prefs. available installed m \<Longrightarrow>
   \<forall>(m, v)\<in>set items. map_of installed m = Some v \<Longrightarrow>
   distinct (fold add_remaining_manager items prefs) \<and>
   (\<forall>m\<in>set (fold add_remaining_manager items prefs). available installed m)"
proof (induction items arbitrary: prefs)
  case Nil
  then show ?case by simp
next
  case (Cons a items)
  obtain m v where a: "a = (m, v)" by (cases a)
  have "distinct (add_remaining_manager a prefs)"
    using Cons.prems(1) by (simp add: add_remaining_manager_def a)
  moreover have "\<forall>m\<in>set (add_remaining_manager a prefs). available installed m"
    using Cons.prems(2,3) by (auto simp: add_remaining_manager_def a available_def)
  moreover have "\<forall>(m, v)\<in>set items. map_of installed m = Some v"
    using Cons.prems(3) by simp
  ultimately show ?case using Cons.IH by simp
qed

lemma dict_items_lookup:
  "distinct (map fst installed) \<Longrightarrow> \<forall>(m, v)\<in>set installed. map_of installed m = Some v"
  by auto

lemma ranker_unfold:
  "ordered_install_manager_candidates h pkg installed =
     fold add_remaining_manager installed
       (fold (add_system_manager installed) (system_manager_priority h)
          (heuristic_prefs pkg installed))"
  by (simp add: ordered_install_manager_candidates_def heuristic_prefs_def Let_def)

lemma heuristic_prefs_inv:
  "distinct (heuristic_prefs pkg installed)"
  "\<forall>m\<in>set (heuristic_prefs pkg installed). available installed m"
  by (auto simp: heuristic_prefs_def)

lemma ranker_inv:
  assumes "distinct (map fst installed)"
  shows "distinct (ordered_install_manager_candidates h pkg installed) \<and>
         (\<forall>m\<in>set (ordered_install_manager_candidates h pkg installed). available installed m)"
  unfolding ranker_unfold
  using fold_add_remaining_manager_inv[OF _ _ dict_items_lookup[OF assms]]
    fold_add_system_manager_inv[OF heuristic_prefs_inv] by blast

lemma fold_add_system_manager_extends:
  "\<exists>ys. fold (add_system_manager installed) ms prefs = prefs @ ys"
proof (induction ms arbitrary: prefs)
  case Nil
  then show ?case by simp
next
  case (Cons a ms)
  obtain ys where ys: "fold (add_system_manager installed) ms (add_system_manager installed a prefs)
      = add_system_manager installed a prefs @ ys"
    using Cons.IH by blast
  obtain zs where zs: "add_system_manager installed a prefs = prefs @ zs"
    by (cases "available installed a \<and> a \<notin> set prefs") (simp_all add: add_system_manager_def)
  show ?case using ys zs by simp
qed

lemma fold_add_remaining_manager_extends:
  "\<exists>ys. fold add_remaining_manager items prefs = prefs @ ys"
proof (induction items arbitrary: prefs)
  case Nil
  then show ?case by simp
next
  case (Cons a items)
  obtain ys where ys: "fold add_remaining_manager items (add_remaining_manager a prefs)
      = add_remaining_manager a prefs @ ys"
    using Cons.IH by blast
  have "\<exists>zs. add_remaining_manager a prefs = prefs @ zs"
    by (cases a) (simp add: add_remaining_manager_def)
  then obtain zs where zs: "add_remaining_manager a prefs = prefs @ zs" by blast
  show ?case using ys zs by simp
qed

lemma set_fold_add_remaining_manager:
  "set (fold add_remaining_manager items prefs) = set prefs \<union> {m. (m, True) \<in> set items}"
proof (induction items arbitrary: prefs)
  case Nil
  then show ?case by simp
next
  case (Cons a items)
  obtain m v where a: "a = (m, v)" by (cases a)
  show ?case
  proof (cases v)
    case True
    have "set (add_remaining_manager a prefs) = insert m (set prefs)"
      by (auto simp: a True add_remaining_manager_def)
    then have "set (fold add_remaining_manager items (add_remaining_manager a prefs))
                 = insert m (set prefs) \<union> {m. (m, True) \<in> set items}"
      using Cons.IH[of "add_remaining_manager a prefs"] by simp
    then show ?thesis by (auto simp: a True)
  next
    case False
    have "add_remaining_manager a prefs = prefs"
      by (simp add: a False add_remaining_manager_def)
    then have "set (fold add_remaining_manager items (add_remaining_manager a prefs))
                 = set prefs \<union> {m. (m, True) \<in> set items}"
      using Cons.IH[of prefs] by simp
    then show ?thesis by (auto simp: a False)
  qed
qed

lemma available_iff_item:
  "distinct (map fst installed) \<Longrightarrow> available installed m \<longleftrightarrow> (m, True) \<in> set installed"
  by (simp add: available_def)

lemma set_ranker:
  assumes "distinct (map fst installed)"
  shows "set (ordered_install_manager_candidates h pkg installed) = {m. available installed m}"
proof
  show "set (ordered_install_manager_candidates h pkg installed) \<subseteq> {m. available installed m}"
    using ranker_inv[OF assms] by blast
  show "{m. available installed m} \<subseteq> set (ordered_install_manager_candidates h pkg installed)"
    unfolding ranker_unfold set_fold_add_remaining_manager
    using available_iff_item[OF assms] by blast
qed

lemma no_true_not_available:
  assumes all_false: "\<forall>m. (m, True) \<notin> set installed"
  shows "\<not> available installed m"
proof
  assume "available installed m"
  then have "map_of installed m = Some True" by (simp only: available_def)
  then have "(m, True) \<in> set installed" by (rule map_of_SomeD)
  then show False using all_false by blast
qed

lemma fold_add_remaining_manager_none:
  "\<forall>m. (m, True) \<notin> set items \<Longrightarrow> fold add_remaining_manager items prefs = prefs"
proof (induction items arbitrary: prefs)
  case Nil
  then show ?case by simp
next
  case (Cons a items)
  obtain m v where a: "a = (m, v)" by (cases a)
  have "(m, True) \<noteq> a" using Cons.prems by (metis list.set_intros(1))
  then have "\<not> v" using a by simp
  then have "add_remaining_manager a prefs = prefs"
    by (simp add: a add_remaining_manager_def)
  moreover have "\<forall>m. (m, True) \<notin> set items" using Cons.prems by simp
  ultimately show ?case using Cons.IH by simp
qed

lemma add_system_manager_unavailable:
  "\<not> available installed m \<Longrightarrow> add_system_manager installed m prefs = prefs"
  by (simp add: add_system_manager_def)

lemma fold_add_system_manager_none:
  "\<forall>m. \<not> available installed m \<Longrightarrow> fold (add_system_manager installed) ms prefs = prefs"
  by (induction ms arbitrary: prefs) (simp_all add: add_system_manager_unavailable)

lemma ranker_empty:
  assumes "\<forall>m. (m, True) \<notin> set installed"
  shows "ordered_install_manager_candidates h pkg installed = []"
proof -
  have na: "\<forall>m. \<not> available installed m" using no_true_not_available[OF assms] by blast
  then have "heuristic_prefs pkg installed = []" by (simp add: heuristic_prefs_def)
  then show ?thesis
    unfolding ranker_unfold
    by (simp add: fold_add_system_manager_none[OF na] fold_add_remaining_manager_none[OF assms])
qed

lemma any_values_iff: "list_ex id (map snd items) \<longleftrightarrow> (\<exists>m. (m, True) \<in> set items)"
  by (induction items) auto

section \<open>The install and remove loops\<close>

lemma commands_run_append: "commands_run (xs @ ys) = commands_run xs @ commands_run ys"
  by (induction xs rule: commands_run.induct) simp_all

lemma commands_run_cprint: "commands_run (cprint text lvl evs) = commands_run evs"
  by (simp add: cprint_def commands_run_append)

lemma install_attempt_shape:
  assumes "install_attempt h pkg i n mgr b (attempts, evs) = (ret, attempts', evs')"
  shows "\<exists>r new. attempts' = attempts @ (mgr, r) # new \<and> (\<forall>a\<in>set new. fst a = mgr)"
  using assms
  by (auto simp: install_attempt_def install_try_def Let_def
           split: sum.splits if_splits option.splits)

lemma install_attempt_no_store_failure:
  assumes "install_attempt h pkg i n mgr b (attempts, evs) = (ret, attempts', evs')"
    and "\<forall>evs p v m c. db_add_package h evs p v m c = None"
  shows "\<exists>r. attempts' = attempts @ [(mgr, r)] \<and> (ret \<longleftrightarrow> ok r)"
  using assms
  by (auto simp: install_attempt_def install_try_def Let_def err_result_def
           split: sum.splits if_splits option.splits)

lemma install_attempt_commands:
  assumes "install_attempt h pkg i n mgr b (attempts, evs) = (ret, attempts', evs')"
  shows "commands_run evs' = commands_run evs @ (case b h pkg of Inl e \<Rightarrow> [] | Inr cmd \<Rightarrow> [cmd])"
  using assms
  by (auto simp: install_attempt_def install_try_def Let_def commands_run_append commands_run_cprint
           split: sum.splits if_splits option.splits)

lemma remove_attempt_shape:
  assumes "remove_attempt h pkg mgr b (attempts, evs) = (ret, attempts', evs')"
  shows "\<exists>r new. attempts' = attempts @ (mgr, r) # new \<and> (\<forall>a\<in>set new. fst a = mgr)"
  using assms
  by (auto simp: remove_attempt_def remove_try_def Let_def
           split: sum.splits if_splits option.splits)

lemma remove_attempt_no_store_failure:
  assumes "remove_attempt h pkg mgr b (attempts, evs) = (ret, attempts', evs')"
    and "\<forall>evs p m. db_remove_package h evs p m = None"
  shows "\<exists>r. attempts' = attempts @ [(mgr, r)] \<and> (ret \<longleftrightarrow> ok r)"
  using assms
  by (auto simp: remove_attempt_def remove_try_def Let_def err_result_def
           split: sum.splits if_splits option.splits)

lemma remove_attempt_commands:
  assumes "remove_attempt h pkg mgr b (attempts, evs) = (ret, attempts', evs')"
  shows "commands_run evs' = commands_run evs @ (case b h pkg of Inl e \<Rightarrow> [] | Inr cmd \<Rightarrow> [cmd])"
  using assms
  by (auto simp: remove_attempt_def remove_try_def Let_def commands_run_append commands_run_cprint
           split: sum.splits if_splits option.splits)

lemma install_loop_skip:
  "map_of INSTALL_HANDLERS mgr = None \<Longrightarrow>
   install_loop h pkg n ((i, mgr) # rest) (attempts, evs) = install_loop h pkg n rest (attempts, evs)"
  by simp

lemma install_loop_return:
  "map_of INSTALL_HANDLERS mgr = Some b \<Longrightarrow>
   install_attempt h pkg i n mgr b (attempts, evs) = (True, attempts', evs') \<Longrightarrow>
   install_loop h pkg n ((i, mgr) # rest) (attempts, evs) = ((True, attempts'), evs')"
  by simp

lemma install_loop_next:
  "map_of INSTALL_HANDLERS mgr = Some b \<Longrightarrow>
   install_attempt h pkg i n mgr b (attempts, evs) = (False, attempts', evs') \<Longrightarrow>
   install_loop h pkg n ((i, mgr) # rest) (attempts, evs) = install_loop h pkg n rest (attempts', evs')"
  by simp

lemma install_loop_extends:
  "\<exists>new. snd (fst (install_loop h pkg n cands (attempts, evs))) = attempts @ new"
proof (induction cands arbitrary: attempts evs)
  case Nil
  show ?case by simp
next
  case (Cons c cands)
  obtain i mgr where c: "c = (i, mgr)" by (cases c)
  show ?case
  proof (cases "map_of INSTALL_HANDLERS mgr")
    case None
    show ?thesis unfolding c install_loop_skip[OF None] by (rule Cons.IH)
  next
    case (Some b)
    obtain ret attempts' evs' where
      att: "install_attempt h pkg i n mgr b (attempts, evs) = (ret, attempts', evs')"
      by (cases "install_attempt h pkg i n mgr b (attempts, evs)") auto
    obtain r new where new: "attempts' = attempts @ (mgr, r) # new"
      using install_attempt_shape[OF att] by blast
    show ?thesis
    proof (cases ret)
      case True
    have att': "install_attempt h pkg i n mgr b (attempts, evs) = (True, attempts', evs')"
      using att True by simp
      show ?thesis unfolding c install_loop_return[OF Some att'] using new by simp
    next
      case False
    have att': "install_attempt h pkg i n mgr b (attempts, evs) = (False, attempts', evs')"
      using att False by simp
      obtain new' where
        "snd (fst (install_loop h pkg n cands (attempts', evs'))) = attempts' @ new'"
        using Cons.IH by blast
      then show ?thesis unfolding c install_loop_next[OF Some att'] using new by simp
    qed
  qed
qed

lemma install_loop_first_attempt:
  assumes handler: "map_of INSTALL_HANDLERS mgr = Some b"
  shows "\<exists>r new. snd (fst (install_loop h pkg n ((i, mgr) # rest) (attempts, evs)))
                   = attempts @ (mgr, r) # new"
proof -
  obtain ret attempts' evs' where
    att: "install_attempt h pkg i n mgr b (attempts, evs) = (ret, attempts', evs')"
    by (cases "install_attempt h pkg i n mgr b (attempts, evs)") auto
  obtain r new where new: "attempts' = attempts @ (mgr, r) # new"
    using install_attempt_shape[OF att] by blast
  show ?thesis
  proof (cases ret)
    case True
    have att': "install_attempt h pkg i n mgr b (attempts, evs) = (True, attempts', evs')"
      using att True by simp
    show ?thesis unfolding install_loop_return[OF handler att'] using new by simp
  next
    case False
    have att': "install_attempt h pkg i n mgr b (attempts, evs) = (False, attempts', evs')"
      using att False by simp
    obtain new' where
      "snd (fst (install_loop h pkg n rest (attempts', evs'))) = attempts' @ new'"
      using install_loop_extends by blast
    then show ?thesis unfolding install_loop_next[OF handler att'] using new by simp
  qed
qed

lemma first_success_Nil: "first_success False [] []"
  by (simp add: first_success_def)

lemma first_success_stop: "ok r \<Longrightarrow> first_success True (m # ms) [(m, r)]"
  by (simp add: first_success_def)

lemma first_success_Cons:
  "\<not> ok r \<Longrightarrow> first_success b ms new \<Longrightarrow> first_success b (m # ms) ((m, r) # new)"
  by (cases b) (auto simp: first_success_def)

lemma install_loop_first_success:
  assumes db: "\<forall>evs p v m c. db_add_package h evs p v m c = None"
    and handlers: "list_all (\<lambda>c. map_of INSTALL_HANDLERS (snd c) \<noteq> None) cands"
  shows "\<exists>new. snd (fst (install_loop h pkg n cands (attempts, evs))) = attempts @ new \<and>
           first_success (fst (fst (install_loop h pkg n cands (attempts, evs)))) (map snd cands) new"
  using handlers
proof (induction cands arbitrary: attempts evs)
  case Nil
  show ?case by (simp add: first_success_Nil)
next
  case (Cons c cands)
  obtain i mgr where c: "c = (i, mgr)" by (cases c)
  obtain b where handler: "map_of INSTALL_HANDLERS mgr = Some b"
    using Cons.prems c by auto
  have rest: "list_all (\<lambda>c. map_of INSTALL_HANDLERS (snd c) \<noteq> None) cands"
    using Cons.prems by simp
  obtain ret attempts' evs' where
    att: "install_attempt h pkg i n mgr b (attempts, evs) = (ret, attempts', evs')"
    by (cases "install_attempt h pkg i n mgr b (attempts, evs)") auto
  obtain r where r: "attempts' = attempts @ [(mgr, r)]" "ret \<longleftrightarrow> ok r"
    using install_attempt_no_store_failure[OF att db] by blast
  show ?case
  proof (cases ret)
    case True
    have att': "install_attempt h pkg i n mgr b (attempts, evs) = (True, attempts', evs')"
      using att True by simp
    have "first_success True (map snd (c # cands)) [(mgr, r)]"
      using first_success_stop r True by (simp add: c)
    then show ?thesis
      unfolding c install_loop_return[OF handler att'] using r by simp
  next
    case False
    have att': "install_attempt h pkg i n mgr b (attempts, evs) = (False, attempts', evs')"
      using att False by simp
    obtain new where new:
      "snd (fst (install_loop h pkg n cands (attempts', evs'))) = attempts' @ new"
      "first_success (fst (fst (install_loop h pkg n cands (attempts', evs')))) (map snd cands) new"
      using Cons.IH[OF rest] by blast
    have "first_success (fst (fst (install_loop h pkg n cands (attempts', evs'))))
            (map snd (c # cands)) ((mgr, r) # new)"
      using first_success_Cons new(2) r False by (simp add: c)
    then show ?thesis
      unfolding c install_loop_next[OF handler att'] using new(1) r by simp
  qed
qed

lemma remove_loop_skip:
  "map_of REMOVE_HANDLERS mgr = None \<Longrightarrow>
   remove_loop h pkg (mgr # rest) (attempts, evs) = remove_loop h pkg rest (attempts, evs)"
  by simp

lemma remove_loop_return:
  "map_of REMOVE_HANDLERS mgr = Some b \<Longrightarrow>
   remove_attempt h pkg mgr b (attempts, evs) = (True, attempts', evs') \<Longrightarrow>
   remove_loop h pkg (mgr # rest) (attempts, evs) = ((True, attempts'), evs')"
  by simp

lemma remove_loop_next:
  "map_of REMOVE_HANDLERS mgr = Some b \<Longrightarrow>
   remove_attempt h pkg mgr b (attempts, evs) = (False, attempts', evs') \<Longrightarrow>
   remove_loop h pkg (mgr # rest) (attempts, evs) = remove_loop h pkg rest (attempts', evs')"
  by simp

text \<open>A single candidate: the attempts and the commands of the whole loop are those of its one attempt.\<close>

lemma remove_loop_single:
  assumes handler: "map_of REMOVE_HANDLERS mgr = Some b"
    and att: "remove_attempt h pkg mgr b (attempts, evs) = (ret, attempts', evs')"
  shows "snd (fst (remove_loop h pkg [mgr] (attempts, evs))) = attempts'"
    and "commands_run (snd (remove_loop h pkg [mgr] (attempts, evs))) = commands_run evs'"
proof -
  show "snd (fst (remove_loop h pkg [mgr] (attempts, evs))) = attempts'"
  proof (cases ret)
    case True
    have att': "remove_attempt h pkg mgr b (attempts, evs) = (True, attempts', evs')"
      using att True by simp
    show ?thesis unfolding remove_loop_return[OF handler att'] by simp
  next
    case False
    have att': "remove_attempt h pkg mgr b (attempts, evs) = (False, attempts', evs')"
      using att False by simp
    show ?thesis unfolding remove_loop_next[OF handler att'] by simp
  qed
  show "commands_run (snd (remove_loop h pkg [mgr] (attempts, evs))) = commands_run evs'"
  proof (cases ret)
    case True
    have att': "remove_attempt h pkg mgr b (attempts, evs) = (True, attempts', evs')"
      using att True by simp
    show ?thesis unfolding remove_loop_return[OF handler att'] by simp
  next
    case False
    have att': "remove_attempt h pkg mgr b (attempts, evs) = (False, attempts', evs')"
      using att False by simp
    show ?thesis unfolding remove_loop_next[OF handler att']
      by (simp add: commands_run_cprint)
  qed
qed

lemma remove_handlers_return:
  "map_of REMOVE_HANDLERS mgr = Some b \<Longrightarrow> \<exists>cmd. b h pkg = Inr cmd"
  by (auto simp: REMOVE_HANDLERS_def split: if_splits)

lemma install_handlers_return:
  "map_of INSTALL_HANDLERS mgr = Some b \<Longrightarrow> \<exists>cmd. b h pkg = Inr cmd"
  by (auto simp: INSTALL_HANDLERS_def split: if_splits)

lemma detect_keys:
  "map fst (detect_installed_managers h) = map fst MANAGER_INSTALL_HANDLERS"
  by (simp add: detect_installed_managers_def MANAGER_INSTALL_HANDLERS_def)

lemma detect_distinct: "distinct (map fst (detect_installed_managers h))"
  unfolding detect_keys by (simp add: MANAGER_INSTALL_HANDLERS_def)

lemma install_handlers_keys: "map fst INSTALL_HANDLERS = map fst MANAGER_INSTALL_HANDLERS"
  by (simp add: INSTALL_HANDLERS_def MANAGER_INSTALL_HANDLERS_def)

lemma available_has_key: "available installed m \<Longrightarrow> m \<in> set (map fst installed)"
proof -
  assume "available installed m"
  then have "map_of installed m = Some True" by (simp only: available_def)
  then have "(m, True) \<in> set installed" by (rule map_of_SomeD)
  then have "fst (m, True) \<in> fst ` set installed" by (rule imageI)
  then show ?thesis by simp
qed

lemma available_has_install_handler:
  assumes "available (detect_installed_managers h) m"
  shows "map_of INSTALL_HANDLERS m \<noteq> None"
proof -
  have "m \<in> set (map fst INSTALL_HANDLERS)"
    using available_has_key[OF assms] unfolding detect_keys install_handlers_keys .
  then show ?thesis by (simp add: map_of_eq_None_iff)
qed

lemma install_loop_events_extend:
  "\<exists>new. snd (install_loop h pkg n cands (attempts, evs)) = evs @ new"
proof (induction cands arbitrary: attempts evs)
  case Nil
  show ?case by (simp add: cprint_def)
next
  case (Cons c cands)
  obtain i mgr where c: "c = (i, mgr)" by (cases c)
  show ?case
  proof (cases "map_of INSTALL_HANDLERS mgr")
    case None
    show ?thesis unfolding c install_loop_skip[OF None] by (rule Cons.IH)
  next
    case (Some b)
    obtain ret attempts' evs' where
      att: "install_attempt h pkg i n mgr b (attempts, evs) = (ret, attempts', evs')"
      by (cases "install_attempt h pkg i n mgr b (attempts, evs)") auto
    have "\<exists>new. evs' = evs @ new"
      using att
      by (auto simp: install_attempt_def install_try_def Let_def cprint_def
               split: sum.splits if_splits option.splits)
    then obtain new where new: "evs' = evs @ new" by blast
    show ?thesis
    proof (cases ret)
      case True
      have att': "install_attempt h pkg i n mgr b (attempts, evs) = (True, attempts', evs')"
        using att True by simp
      show ?thesis unfolding c install_loop_return[OF Some att'] using new by simp
    next
      case False
      have att': "install_attempt h pkg i n mgr b (attempts, evs) = (False, attempts', evs')"
        using att False by simp
      obtain new' where "snd (install_loop h pkg n cands (attempts', evs')) = evs' @ new'"
        using Cons.IH by blast
      then show ?thesis unfolding c install_loop_next[OF Some att'] using new by simp
    qed
  qed
qed

lemma some_available_ranked:
  assumes "list_ex id (map snd (detect_installed_managers h))"
  shows "ordered_install_manager_candidates h pkg (detect_installed_managers h) \<noteq> []"
proof -
  obtain m where "(m, True) \<in> set (detect_installed_managers h)"
    using assms unfolding any_values_iff by blast
  then have "available (detect_installed_managers h) m"
    using available_iff_item[OF detect_distinct] by blast
  then have "m \<in> set (ordered_install_manager_candidates h pkg (detect_installed_managers h))"
    unfolding set_ranker[OF detect_distinct] by simp
  then show ?thesis by auto
qed

lemma available_some: "available installed m \<Longrightarrow> list_ex id (map snd installed)"
proof -
  assume "available installed m"
  then have "map_of installed m = Some True" by (simp only: available_def)
  then have "(m, True) \<in> set installed" by (rule map_of_SomeD)
  then show ?thesis unfolding any_values_iff by blast
qed

lemma install_package_preferred:
  assumes "p \<noteq> []" "lower p \<in> set (map fst INSTALL_HANDLERS)"
    "available (detect_installed_managers h) (lower p)"
  shows "install_package h pkg (Some p) =
     (let cs = lower p # filter (\<lambda>m. m \<noteq> lower p)
                 (ordered_install_manager_candidates h pkg (detect_installed_managers h))
      in install_loop h pkg (length cs) (enumerate 1 cs)
           ([], fold (\<lambda>(i, m). cprint (PlanEntry i m) MUTED) (enumerate 1 cs)
                  [Cprint (PreparingInstall pkg) INFO, Cprint InstallationPlan CYAN]))"
  using assms available_some[OF assms(3)]
  by (simp add: install_package_def apply_preferred_manager_def Let_def cprint_def
           del: install_loop.simps enumerate_simps)

lemma install_package_not_preferred:
  assumes "p \<noteq> []"
    "\<not> (lower p \<in> set (map fst INSTALL_HANDLERS) \<and>
        available (detect_installed_managers h) (lower p))"
    "list_ex id (map snd (detect_installed_managers h))"
  shows "install_package h pkg (Some p) =
     (let cs = ordered_install_manager_candidates h pkg (detect_installed_managers h)
      in install_loop h pkg (length cs) (enumerate 1 cs)
           ([], fold (\<lambda>(i, m). cprint (PlanEntry i m) MUTED) (enumerate 1 cs)
                  [Cprint (PreparingInstall pkg) INFO,
                   Cprint (PreferredNotAvailable p (map fst (filter snd (detect_installed_managers h)))) WARNING,
                   Cprint InstallationPlan CYAN]))"
  using assms some_available_ranked[OF assms(3)]
  by (auto simp: install_package_def apply_preferred_manager_def Let_def cprint_def
           simp del: install_loop.simps enumerate_simps)

lemma fold_plan_extends:
  "\<exists>new. fold (\<lambda>(i, m). cprint (PlanEntry i m) MUTED) xs evs = evs @ new"
proof (induction xs arbitrary: evs)
  case Nil
  show ?case by simp
next
  case (Cons x xs)
  obtain i m where x: "x = (i, m)" by (cases x)
  obtain new where "fold (\<lambda>(i, m). cprint (PlanEntry i m) MUTED) xs
       (cprint (PlanEntry i m) MUTED evs) = cprint (PlanEntry i m) MUTED evs @ new"
    using Cons.IH by blast
  then have "fold (\<lambda>(i, m). cprint (PlanEntry i m) MUTED) (x # xs) evs
       = evs @ (Cprint (PlanEntry i m) MUTED # new)"
    by (simp add: x cprint_def)
  then show ?case by blast
qed

section \<open>C2: the candidate list has no duplicates and only available managers\<close>

text \<open>
  C2. For every package and every availability map (a dictionary, so with distinct
  keys), the candidate list of the ranker has no duplicate and holds only managers whose
  entry in the map is true.
\<close>

theorem ranker_no_duplicates_only_available:
  assumes "distinct (map fst installed)"
  shows "distinct (ordered_install_manager_candidates h pkg installed) \<and>
         (\<forall>m\<in>set (ordered_install_manager_candidates h pkg installed).
             map_of installed m = Some True)"
  using ranker_inv[OF assms] unfolding available_def .

theorem ranker_no_duplicates_only_available_witness:
  "distinct (map fst scenario_map) \<and>
   distinct (ordered_install_manager_candidates debian_host ''django==4.2'' scenario_map) \<and>
   list_all (\<lambda>m. map_of scenario_map m = Some True)
     (ordered_install_manager_candidates debian_host ''django==4.2'' scenario_map)"
proof -
  have keys: "distinct (map fst scenario_map)" by code_simp
  show ?thesis
    using keys ranker_no_duplicates_only_available[OF keys, of debian_host "''django==4.2''"]
    unfolding list_all_iff by blast
qed

section \<open>C5: no manager available\<close>

lemma detect_bare_host:
  "detect_installed_managers bare_host =
     [(''pip'', False), (''npm'', False), (''apt'', False), (''dnf'', False), (''yum'', False),
      (''pacman'', False), (''zypper'', False), (''apk'', False), (''brew'', False),
      (''choco'', False), (''winget'', False), (''snap'', False), (''flatpak'', False)]"
  by code_simp

lemma bare_host_nothing_available: "\<forall>m. (m, True) \<notin> set (detect_installed_managers bare_host)"
  unfolding detect_bare_host by simp

lemma install_package_none_available:
  assumes "\<forall>m. (m, True) \<notin> set (detect_installed_managers h)"
  shows "install_package h pkg preferred_manager =
           ((False, []), [Cprint (PreparingInstall pkg) INFO, Cprint NoSupportedManagers ERROR])"
  using assms by (simp add: install_package_def any_values_iff cprint_def)

lemma remove_package_none_available:
  assumes "\<forall>m. (m, True) \<notin> set (detect_installed_managers h)"
  shows "remove_package h pkg manager_arg =
           ((False, []), [Cprint (PreparingRemove pkg) INFO, Cprint NoSupportedManagers ERROR])"
  using assms by (simp add: remove_package_def any_values_iff cprint_def)

text \<open>
  C5. If no entry of the availability map is true, the ranker returns the empty list,
  and on a host where that map is what detection finds, \<open>install_package\<close> and
  \<open>remove_package\<close> return \<open>(False, [])\<close> after two console lines, with no external
  command run and no record-store write.
\<close>

theorem nothing_available_nothing_attempted:
  assumes "\<forall>m. (m, True) \<notin> set installed"
  shows "ordered_install_manager_candidates h pkg installed = [] \<and>
         (detect_installed_managers h = installed \<longrightarrow>
            install_package h pkg preferred_manager =
              ((False, []), [Cprint (PreparingInstall pkg) INFO, Cprint NoSupportedManagers ERROR]) \<and>
            remove_package h pkg manager_arg =
              ((False, []), [Cprint (PreparingRemove pkg) INFO, Cprint NoSupportedManagers ERROR]) \<and>
            commands_run (snd (install_package h pkg preferred_manager)) = [] \<and>
            commands_run (snd (remove_package h pkg manager_arg)) = [])"
proof (intro conjI impI)
  show "ordered_install_manager_candidates h pkg installed = []"
    by (rule ranker_empty[OF assms])
next
  assume d: "detect_installed_managers h = installed"
  then have none: "\<forall>m. (m, True) \<notin> set (detect_installed_managers h)" using assms by simp
  show "install_package h pkg preferred_manager =
          ((False, []), [Cprint (PreparingInstall pkg) INFO, Cprint NoSupportedManagers ERROR])"
    by (rule install_package_none_available[OF none])
  show "remove_package h pkg manager_arg =
          ((False, []), [Cprint (PreparingRemove pkg) INFO, Cprint NoSupportedManagers ERROR])"
    by (rule remove_package_none_available[OF none])
  show "commands_run (snd (install_package h pkg preferred_manager)) = []"
    unfolding install_package_none_available[OF none] by simp
  show "commands_run (snd (remove_package h pkg manager_arg)) = []"
    unfolding remove_package_none_available[OF none] by simp
qed

theorem nothing_available_nothing_attempted_witness:
  "(\<forall>m. (m, True) \<notin> set (detect_installed_managers bare_host)) \<and>
   ordered_install_manager_candidates bare_host ''foo'' (detect_installed_managers bare_host) = [] \<and>
   install_package bare_host ''foo'' (Some ''pip'') =
     ((False, []), [Cprint (PreparingInstall ''foo'') INFO, Cprint NoSupportedManagers ERROR]) \<and>
   remove_package bare_host ''foo'' None =
     ((False, []), [Cprint (PreparingRemove ''foo'') INFO, Cprint NoSupportedManagers ERROR])"
  using bare_host_nothing_available
    nothing_available_nothing_attempted[OF bare_host_nothing_available,
      of bare_host "''foo''" "Some ''pip''" None]
  by blast

section \<open>C8: a version specifier puts pip first\<close>

lemma django_looks_like_python: "looks_like_python_pkg ''django==4.2''"
  by code_simp

lemma django_not_npm: "\<not> looks_like_npm_pkg ''django==4.2''"
  by code_simp

lemma version_token_looks_like_python:
  assumes "list_ex (\<lambda>indicator. str_in indicator pkg)
             [''=='', ''>='', ''<='', ''~='', ''!='', ''['', '']'']"
  shows "looks_like_python_pkg pkg"
  using assms unfolding looks_like_python_pkg_def Let_def by simp

lemma linux_apt_priority:
  assumes "os_type h = ''linux''" "which h ''apt'' \<or> which h ''apt-get''"
  shows "system_manager_priority h = [''apt'', ''snap'', ''flatpak'']"
  using assms by (simp add: system_manager_priority_def Let_def)

lemma add_system_manager_new:
  "available installed m \<Longrightarrow> m \<notin> set prefs \<Longrightarrow> add_system_manager installed m prefs = prefs @ [m]"
  by (simp add: add_system_manager_def)

lemma python_package_on_apt_host:
  assumes os: "os_type h = ''linux''"
    and apt_found: "which h ''apt'' \<or> which h ''apt-get''"
    and keys: "distinct (map fst installed)"
    and py: "looks_like_python_pkg pkg" and not_npm: "\<not> looks_like_npm_pkg pkg"
    and pip: "available installed ''pip''" and apt: "available installed ''apt''"
  shows "\<exists>rest. ordered_install_manager_candidates h pkg installed = ''pip'' # ''apt'' # rest \<and>
           set rest = {m. available installed m} - {''pip'', ''apt''} \<and> distinct rest"
proof -
  have hp: "heuristic_prefs pkg installed = [''pip'']"
    using py not_npm pip by (simp add: heuristic_prefs_def)
  have "fold (add_system_manager installed) (system_manager_priority h) [''pip'']
          = fold (add_system_manager installed) [''snap'', ''flatpak''] [''pip'', ''apt'']"
    unfolding linux_apt_priority[OF os apt_found]
    using add_system_manager_new[OF apt, of "[''pip'']"] by simp
  moreover obtain ys where
    "fold (add_system_manager installed) [''snap'', ''flatpak''] [''pip'', ''apt'']
       = [''pip'', ''apt''] @ ys"
    using fold_add_system_manager_extends by blast
  moreover obtain zs where
    "fold add_remaining_manager installed ([''pip'', ''apt''] @ ys) = ([''pip'', ''apt''] @ ys) @ zs"
    using fold_add_remaining_manager_extends by blast
  ultimately have shape:
    "ordered_install_manager_candidates h pkg installed = ''pip'' # ''apt'' # (ys @ zs)"
    unfolding ranker_unfold hp by simp
  have "distinct (''pip'' # ''apt'' # (ys @ zs))"
    using ranker_inv[OF keys, of h pkg] unfolding shape by blast
  moreover have "set (''pip'' # ''apt'' # (ys @ zs)) = {m. available installed m}"
    using set_ranker[OF keys, of h pkg] unfolding shape .
  ultimately have "set (ys @ zs) = {m. available installed m} - {''pip'', ''apt''}"
    and "distinct (ys @ zs)"
    by auto
  then show ?thesis using shape by blast
qed

text \<open>
  C8. The package \<open>django==4.2\<close> contains the version-specifier token \<open>==\<close>, so it
  passes the Python test. On a Linux host where apt is found on the path, with a
  dictionary in which pip and apt are true, the candidate list is pip, then apt, then
  exactly the other managers that are true, each once. (npm is not tested against the
  map: the package fails the npm test.)
\<close>

theorem django_scenario_pip_then_apt:
  assumes "os_type h = ''linux''" and "which h ''apt''"
    and "distinct (map fst installed)"
    and "map_of installed ''pip'' = Some True" and "map_of installed ''apt'' = Some True"
  shows "list_ex (\<lambda>indicator. str_in indicator ''django==4.2'')
           [''=='', ''>='', ''<='', ''~='', ''!='', ''['', '']''] \<and>
         looks_like_python_pkg ''django==4.2'' \<and>
         (\<exists>rest. ordered_install_manager_candidates h ''django==4.2'' installed
                   = ''pip'' # ''apt'' # rest \<and>
                 set rest = {m. map_of installed m = Some True} - {''pip'', ''apt''} \<and>
                 distinct rest)"
proof (intro conjI)
  show "list_ex (\<lambda>indicator. str_in indicator ''django==4.2'')
           [''=='', ''>='', ''<='', ''~='', ''!='', ''['', '']'']"
    by code_simp
  show "looks_like_python_pkg ''django==4.2''" by (rule django_looks_like_python)
  show "\<exists>rest. ordered_install_manager_candidates h ''django==4.2'' installed
                   = ''pip'' # ''apt'' # rest \<and>
                 set rest = {m. map_of installed m = Some True} - {''pip'', ''apt''} \<and>
                 distinct rest"
    using python_package_on_apt_host[OF assms(1) _ assms(3) django_looks_like_python django_not_npm]
      assms(2,4,5)
    unfolding available_def by blast
qed

theorem django_scenario_pip_then_apt_witness:
  "os_type debian_host = ''linux'' \<and> which debian_host ''apt'' \<and>
   distinct (map fst scenario_map) \<and>
   map_of scenario_map ''pip'' = Some True \<and> map_of scenario_map ''apt'' = Some True \<and>
   map_of scenario_map ''npm'' = Some False \<and>
   ordered_install_manager_candidates debian_host ''django==4.2'' scenario_map = [''pip'', ''apt''] \<and>
   (\<exists>rest. ordered_install_manager_candidates debian_host ''django==4.2'' scenario_map
             = ''pip'' # ''apt'' # rest \<and>
           set rest = {m. map_of scenario_map m = Some True} - {''pip'', ''apt''} \<and>
           distinct rest)"
proof -
  have os: "os_type debian_host = ''linux''" by code_simp
  have apt: "which debian_host ''apt''" by code_simp
  have keys: "distinct (map fst scenario_map)" by code_simp
  have pip_true: "map_of scenario_map ''pip'' = Some True" by code_simp
  have apt_true: "map_of scenario_map ''apt'' = Some True" by code_simp
  have npm_false: "map_of scenario_map ''npm'' = Some False" by code_simp
  have run: "ordered_install_manager_candidates debian_host ''django==4.2'' scenario_map
               = [''pip'', ''apt'']"
    by code_simp
  show ?thesis
    using os apt keys pip_true apt_true npm_false run
      django_scenario_pip_then_apt[OF os apt keys pip_true apt_true]
    by blast
qed

section \<open>C6: the preferred manager\<close>

lemma install_handler_of_key:
  "m \<in> set (map fst INSTALL_HANDLERS) \<Longrightarrow> \<exists>b. map_of INSTALL_HANDLERS m = Some b"
  by (cases "map_of INSTALL_HANDLERS m") (simp_all add: map_of_eq_None_iff)

lemma install_package_preferred_first_attempt:
  assumes "p \<noteq> []" "lower p \<in> set (map fst INSTALL_HANDLERS)"
    "available (detect_installed_managers h) (lower p)"
  shows "\<exists>r rest. snd (fst (install_package h pkg (Some p))) = (lower p, r) # rest"
proof -
  obtain b where b: "map_of INSTALL_HANDLERS (lower p) = Some b"
    using install_handler_of_key[OF assms(2)] by blast
  show ?thesis
    unfolding install_package_preferred[OF assms] Let_def enumerate_simps
    using install_loop_first_attempt[OF b, where attempts = "[]"] by simp
qed

lemma install_package_warning_emitted:
  assumes "p \<noteq> []"
    "\<not> (lower p \<in> set (map fst INSTALL_HANDLERS) \<and>
        available (detect_installed_managers h) (lower p))"
    "list_ex id (map snd (detect_installed_managers h))"
  shows "Cprint (PreferredNotAvailable p (map fst (filter snd (detect_installed_managers h)))) WARNING
           \<in> set (snd (install_package h pkg (Some p)))"
proof -
  let ?cs = "ordered_install_manager_candidates h pkg (detect_installed_managers h)"
  let ?w = "Cprint (PreferredNotAvailable p (map fst (filter snd (detect_installed_managers h)))) WARNING"
  let ?evs0 = "[Cprint (PreparingInstall pkg) INFO, ?w, Cprint InstallationPlan CYAN]"
  obtain plan where plan:
    "fold (\<lambda>(i, m). cprint (PlanEntry i m) MUTED) (enumerate 1 ?cs) ?evs0 = ?evs0 @ plan"
    using fold_plan_extends by blast
  obtain new where
    "snd (install_loop h pkg (length ?cs) (enumerate 1 ?cs) ([], ?evs0 @ plan)) = (?evs0 @ plan) @ new"
    using install_loop_events_extend by blast
  then show ?thesis
    unfolding install_package_not_preferred[OF assms] Let_def plan by simp
qed

text \<open>
  C6, as amended. A preferred manager is given and is not the empty string. If its
  lower-case form has an install handler and is available, the loop runs over that
  manager followed by the ranked candidates without it (a list without duplicates), and
  the first attempt recorded is for that manager.
  Otherwise, on a host where at least one manager is available, the warning is printed
  and the loop runs over the ranked list as it is, which is not empty.
\<close>

theorem preferred_manager_first_or_warning:
  assumes "p \<noteq> []"
  shows
    "(preferred_valid h p \<longrightarrow>
        (\<exists>evs. install_package h pkg (Some p) =
           install_loop h pkg
             (length (lower p # filter (\<lambda>m. m \<noteq> lower p)
                (ordered_install_manager_candidates h pkg (detect_installed_managers h))))
             (enumerate 1 (lower p # filter (\<lambda>m. m \<noteq> lower p)
                (ordered_install_manager_candidates h pkg (detect_installed_managers h))))
             ([], evs)) \<and>
        distinct (lower p # filter (\<lambda>m. m \<noteq> lower p)
                (ordered_install_manager_candidates h pkg (detect_installed_managers h))) \<and>
        (\<exists>r rest. snd (fst (install_package h pkg (Some p))) = (lower p, r) # rest)) \<and>
     (\<not> preferred_valid h p \<and> list_ex id (map snd (detect_installed_managers h)) \<longrightarrow>
        Cprint (PreferredNotAvailable p (map fst (filter snd (detect_installed_managers h)))) WARNING
           \<in> set (snd (install_package h pkg (Some p))) \<and>
        ordered_install_manager_candidates h pkg (detect_installed_managers h) \<noteq> [] \<and>
        (\<exists>evs. install_package h pkg (Some p) =
           install_loop h pkg
             (length (ordered_install_manager_candidates h pkg (detect_installed_managers h)))
             (enumerate 1 (ordered_install_manager_candidates h pkg (detect_installed_managers h)))
             ([], evs)))"
proof (intro conjI impI)
  assume v: "preferred_valid h p"
  then have k: "lower p \<in> set (map fst INSTALL_HANDLERS)"
    and a: "available (detect_installed_managers h) (lower p)"
    by (simp_all add: preferred_valid_def)
  show "\<exists>evs. install_package h pkg (Some p) =
           install_loop h pkg
             (length (lower p # filter (\<lambda>m. m \<noteq> lower p)
                (ordered_install_manager_candidates h pkg (detect_installed_managers h))))
             (enumerate 1 (lower p # filter (\<lambda>m. m \<noteq> lower p)
                (ordered_install_manager_candidates h pkg (detect_installed_managers h))))
             ([], evs)"
    unfolding install_package_preferred[OF assms k a] Let_def by blast
  show "distinct (lower p # filter (\<lambda>m. m \<noteq> lower p)
                (ordered_install_manager_candidates h pkg (detect_installed_managers h)))"
    using ranker_inv[OF detect_distinct, of h pkg] by simp
  show "\<exists>r rest. snd (fst (install_package h pkg (Some p))) = (lower p, r) # rest"
    by (rule install_package_preferred_first_attempt[OF assms k a])
next
  assume "\<not> preferred_valid h p \<and> list_ex id (map snd (detect_installed_managers h))"
  then have nv: "\<not> (lower p \<in> set (map fst INSTALL_HANDLERS) \<and>
        available (detect_installed_managers h) (lower p))"
    and some: "list_ex id (map snd (detect_installed_managers h))"
    by (simp_all add: preferred_valid_def)
  show "Cprint (PreferredNotAvailable p (map fst (filter snd (detect_installed_managers h)))) WARNING
           \<in> set (snd (install_package h pkg (Some p)))"
    by (rule install_package_warning_emitted[OF assms nv some])
  show "ordered_install_manager_candidates h pkg (detect_installed_managers h) \<noteq> []"
    by (rule some_available_ranked[OF some])
  show "\<exists>evs. install_package h pkg (Some p) =
           install_loop h pkg
             (length (ordered_install_manager_candidates h pkg (detect_installed_managers h)))
             (enumerate 1 (ordered_install_manager_candidates h pkg (detect_installed_managers h)))
             ([], evs)"
    unfolding install_package_not_preferred[OF assms nv some] Let_def by blast
qed

lemma detect_debian_host:
  "detect_installed_managers debian_host =
     [(''pip'', True), (''npm'', False), (''apt'', True), (''dnf'', False), (''yum'', False),
      (''pacman'', False), (''zypper'', False), (''apk'', False), (''brew'', False),
      (''choco'', False), (''winget'', False), (''snap'', False), (''flatpak'', False)]"
  by code_simp

theorem preferred_manager_first_or_warning_witness:
  "''APT'' \<noteq> [] \<and> preferred_valid debian_host ''APT'' \<and>
   (\<exists>r rest. snd (fst (install_package debian_host ''foo'' (Some ''APT''))) = (''apt'', r) # rest) \<and>
   ''brew'' \<noteq> [] \<and> \<not> preferred_valid debian_host ''brew'' \<and>
   list_ex id (map snd (detect_installed_managers debian_host)) \<and>
   Cprint (PreferredNotAvailable ''brew'' [''pip'', ''apt'']) WARNING
     \<in> set (snd (install_package debian_host ''foo'' (Some ''brew'')))"
proof -
  have ne1: "''APT'' \<noteq> []" and ne2: "''brew'' \<noteq> []" by simp_all
  have v1: "preferred_valid debian_host ''APT''" by code_simp
  have v2: "\<not> preferred_valid debian_host ''brew''" by code_simp
  have some: "list_ex id (map snd (detect_installed_managers debian_host))" by code_simp
  have low: "lower ''APT'' = ''apt''" by code_simp
  have av: "map fst (filter snd (detect_installed_managers debian_host)) = [''pip'', ''apt'']"
    by code_simp
  show ?thesis
    using ne1 ne2 v1 v2 some
      preferred_manager_first_or_warning[OF ne1, of debian_host "''foo''"]
      preferred_manager_first_or_warning[OF ne2, of debian_host "''foo''"]
    unfolding low av by blast
qed

theorem preferred_manager_counterexample:
  "\<not> preferred_valid bare_host ''brew'' \<and>
   install_package bare_host ''foo'' (Some ''brew'') =
     ((False, []), [Cprint (PreparingInstall ''foo'') INFO, Cprint NoSupportedManagers ERROR])"
proof -
  have "\<not> preferred_valid bare_host ''brew''" by code_simp
  moreover have "install_package bare_host ''foo'' (Some ''brew'') =
     ((False, []), [Cprint (PreparingInstall ''foo'') INFO, Cprint NoSupportedManagers ERROR])"
    by (rule install_package_none_available[OF bare_host_nothing_available])
  ultimately show ?thesis by blast
qed

section \<open>C3: an explicit manager for removal\<close>

lemma remove_handler_of_key:
  "m \<in> set (map fst REMOVE_HANDLERS) \<Longrightarrow> \<exists>b. map_of REMOVE_HANDLERS m = Some b"
  by (cases "map_of REMOVE_HANDLERS m") (simp_all add: map_of_eq_None_iff)

lemma remove_package_explicit:
  assumes "m \<noteq> []" "removal_valid h m"
  shows "remove_package h pkg (Some m) =
           remove_loop h pkg [lower m] ([], [Cprint (PreparingRemove pkg) INFO])"
  using assms available_some[of "detect_installed_managers h" "lower m"]
  by (simp add: remove_package_def removal_valid_def Let_def cprint_def del: remove_loop.simps)

lemma remove_package_explicit_rejected:
  assumes "m \<noteq> []" "\<not> removal_valid h m"
  shows "fst (remove_package h pkg (Some m)) = (False, []) \<and>
         commands_run (snd (remove_package h pkg (Some m))) = []"
  using assms
  by (auto simp: remove_package_def removal_valid_def Let_def cprint_def
           simp del: remove_loop.simps)

text \<open>
  C3, as amended. A manager is given and is not the empty string. If its lower-case
  form has a remove handler and is available, it is the only candidate: exactly one
  external command is run, every attempt recorded is for that manager, there is at least
  one, and there is exactly one when the record store does not raise. In every other
  case the result is \<open>(False, [])\<close> and no external command is run.
\<close>

theorem explicit_manager_only_candidate:
  assumes "m \<noteq> []"
  shows
    "(removal_valid h m \<longrightarrow>
        (\<exists>r rest. snd (fst (remove_package h pkg (Some m))) = (lower m, r) # rest \<and>
           list_all (\<lambda>a. fst a = lower m) rest \<and>
           ((\<forall>evs p mg. db_remove_package h evs p mg = None) \<longrightarrow> rest = [])) \<and>
        length (commands_run (snd (remove_package h pkg (Some m)))) = 1) \<and>
     (\<not> removal_valid h m \<longrightarrow>
        fst (remove_package h pkg (Some m)) = (False, []) \<and>
        commands_run (snd (remove_package h pkg (Some m))) = [])"
proof (intro conjI impI)
  assume v: "removal_valid h m"
  then obtain b where b: "map_of REMOVE_HANDLERS (lower m) = Some b"
    using remove_handler_of_key unfolding removal_valid_def by blast
  let ?evs = "[Cprint (PreparingRemove pkg) INFO]"
  obtain ret attempts' evs' where
    att: "remove_attempt h pkg (lower m) b ([], ?evs) = (ret, attempts', evs')"
    by (cases "remove_attempt h pkg (lower m) b ([], ?evs)") auto
  have attempts: "snd (fst (remove_package h pkg (Some m))) = attempts'"
    and commands: "commands_run (snd (remove_package h pkg (Some m))) = commands_run evs'"
    unfolding remove_package_explicit[OF assms v]
    using remove_loop_single[OF b att] by blast+
  obtain r rest where shape: "attempts' = (lower m, r) # rest" "\<forall>a\<in>set rest. fst a = lower m"
    using remove_attempt_shape[OF att] by auto
  have one: "(\<forall>evs p mg. db_remove_package h evs p mg = None) \<longrightarrow> rest = []"
  proof
    assume "\<forall>evs p mg. db_remove_package h evs p mg = None"
    then show "rest = []"
      using remove_attempt_no_store_failure[OF att] shape(1) by auto
  qed
  show "\<exists>r rest. snd (fst (remove_package h pkg (Some m))) = (lower m, r) # rest \<and>
           list_all (\<lambda>a. fst a = lower m) rest \<and>
           ((\<forall>evs p mg. db_remove_package h evs p mg = None) \<longrightarrow> rest = [])"
    unfolding attempts using shape one by (auto simp: list_all_iff)
  obtain cmd where "b h pkg = Inr cmd" using remove_handlers_return[OF b] by blast
  then show "length (commands_run (snd (remove_package h pkg (Some m)))) = 1"
    unfolding commands remove_attempt_commands[OF att] by simp
next
  assume nv: "\<not> removal_valid h m"
  show "fst (remove_package h pkg (Some m)) = (False, [])"
    and "commands_run (snd (remove_package h pkg (Some m))) = []"
    using remove_package_explicit_rejected[OF assms nv] by blast+
qed

theorem explicit_manager_only_candidate_witness:
  "''APT'' \<noteq> [] \<and> removal_valid debian_host ''APT'' \<and>
   (\<exists>r. snd (fst (remove_package debian_host ''foo'' (Some ''APT''))) = [(''apt'', r)]) \<and>
   length (commands_run (snd (remove_package debian_host ''foo'' (Some ''APT'')))) = 1 \<and>
   ''brew'' \<noteq> [] \<and> \<not> removal_valid debian_host ''brew'' \<and>
   fst (remove_package debian_host ''foo'' (Some ''brew'')) = (False, []) \<and>
   commands_run (snd (remove_package debian_host ''foo'' (Some ''brew''))) = []"
proof -
  have ne1: "''APT'' \<noteq> []" and ne2: "''brew'' \<noteq> []" by simp_all
  have v1: "removal_valid debian_host ''APT''" by code_simp
  have v2: "\<not> removal_valid debian_host ''brew''" by code_simp
  have low: "lower ''APT'' = ''apt''" by code_simp
  have db: "\<forall>evs p mg. db_remove_package debian_host evs p mg = None"
    by (simp add: debian_host_def bare_host_def)
  show ?thesis
    using ne1 ne2 v1 v2 db
      explicit_manager_only_candidate[OF ne1, of debian_host "''foo''"]
      explicit_manager_only_candidate[OF ne2, of debian_host "''foo''"]
    unfolding low by blast
qed

theorem explicit_manager_counterexample:
  "available (detect_installed_managers suse_host) ''zypper'' \<and>
   remove_package suse_host ''foo'' (Some ''zypper'') =
     ((False, []),
      [Cprint (PreparingRemove ''foo'') INFO,
       Cprint (ManagerNotAvailableForRemoval ''zypper'') ERROR])"
  by code_simp

section \<open>C9: exceptions become failed attempts\<close>

lemma install_attempt_exception:
  assumes "command_raises h cmd_builder pkg (cprint (AttemptInstalling i n mgr) INFO evs) 1800 e"
  shows "\<exists>evs'. install_attempt h pkg i n mgr cmd_builder (attempts, evs) =
           (False, attempts @ [(mgr, err_result e)], evs') \<and>
           Cprint (ManagerFailedException mgr e) WARNING \<in> set evs'"
  using assms
  by (auto simp: command_raises_def install_attempt_def install_try_def Let_def cprint_def
           split: sum.splits)

lemma remove_attempt_exception:
  assumes "command_raises h cmd_builder pkg (cprint (AttemptingRemoval mgr) INFO evs) 600 e"
  shows "\<exists>evs'. remove_attempt h pkg mgr cmd_builder (attempts, evs) =
           (False, attempts @ [(mgr, err_result e)], evs') \<and>
           Cprint (ManagerFailedException mgr e) WARNING \<in> set evs'"
  using assms
  by (auto simp: command_raises_def remove_attempt_def remove_try_def Let_def cprint_def
           split: sum.splits)

lemma install_loop_all_raise:
  assumes raise: "\<forall>evs cmd t r. run_command h evs cmd t r = Inl e"
    and handlers: "list_all (\<lambda>c. map_of INSTALL_HANDLERS (snd c) \<noteq> None) cands"
  shows "fst (install_loop h pkg n cands (attempts, evs)) =
           (False, attempts @ map (\<lambda>c. (snd c, err_result e)) cands)"
  using handlers
proof (induction cands arbitrary: attempts evs)
  case Nil
  show ?case by simp
next
  case (Cons c cands)
  obtain i mgr where c: "c = (i, mgr)" by (cases c)
  obtain b where b: "map_of INSTALL_HANDLERS mgr = Some b"
    using Cons.prems c by auto
  have rest: "list_all (\<lambda>c. map_of INSTALL_HANDLERS (snd c) \<noteq> None) cands"
    using Cons.prems by simp
  obtain cmd where "b h pkg = Inr cmd" using install_handlers_return[OF b] by blast
  then have "command_raises h b pkg (cprint (AttemptInstalling i n mgr) INFO evs) 1800 e"
    using raise by (simp add: command_raises_def)
  then obtain evs' where
    att: "install_attempt h pkg i n mgr b (attempts, evs) = (False, attempts @ [(mgr, err_result e)], evs')"
    using install_attempt_exception by blast
  show ?case
    unfolding c install_loop_next[OF b att] Cons.IH[OF rest] by simp
qed

lemma ranked_have_handlers:
  "list_all (\<lambda>c. map_of INSTALL_HANDLERS (snd c) \<noteq> None)
     (enumerate k (ordered_install_manager_candidates h pkg (detect_installed_managers h)))"
proof -
  have "\<forall>m\<in>set (ordered_install_manager_candidates h pkg (detect_installed_managers h)).
          map_of INSTALL_HANDLERS m \<noteq> None"
    using ranker_inv[OF detect_distinct, of h pkg] available_has_install_handler by blast
  then show ?thesis
    unfolding list_all_iff enumerate_eq_zip by (auto dest: set_zip_rightD)
qed

lemma install_package_None:
  assumes "list_ex id (map snd (detect_installed_managers h))"
  shows "install_package h pkg None =
     (let cs = ordered_install_manager_candidates h pkg (detect_installed_managers h)
      in install_loop h pkg (length cs) (enumerate 1 cs)
           ([], fold (\<lambda>(i, m). cprint (PlanEntry i m) MUTED) (enumerate 1 cs)
                  [Cprint (PreparingInstall pkg) INFO, Cprint InstallationPlan CYAN]))"
  using assms some_available_ranked[OF assms]
  by (auto simp: install_package_def apply_preferred_manager_def Let_def cprint_def
           simp del: install_loop.simps enumerate_simps)

lemma map_snd_enumerated: "map (\<lambda>c. f (snd c)) (enumerate k xs) = map f xs"
  by (induction xs arbitrary: k) simp_all

lemma install_package_all_raise:
  assumes "\<forall>evs cmd t r. run_command h evs cmd t r = Inl e"
    and "list_ex id (map snd (detect_installed_managers h))"
  shows "fst (install_package h pkg None) =
           (False, map (\<lambda>m. (m, err_result e))
                     (ordered_install_manager_candidates h pkg (detect_installed_managers h)))"
  unfolding install_package_None[OF assms(2)] Let_def
    install_loop_all_raise[OF assms(1) ranked_have_handlers]
  using map_snd_enumerated[of "\<lambda>m. (m, err_result e)"] by simp

lemma remove_loop_all_raise:
  assumes raise: "\<forall>evs cmd t r. run_command h evs cmd t r = Inl e"
    and handlers: "list_all (\<lambda>m. map_of REMOVE_HANDLERS m \<noteq> None) cands"
  shows "fst (remove_loop h pkg cands (attempts, evs)) =
           (False, attempts @ map (\<lambda>m. (m, err_result e)) cands)"
  using handlers
proof (induction cands arbitrary: attempts evs)
  case Nil
  show ?case by simp
next
  case (Cons mgr cands)
  obtain b where b: "map_of REMOVE_HANDLERS mgr = Some b"
    using Cons.prems by auto
  have rest: "list_all (\<lambda>m. map_of REMOVE_HANDLERS m \<noteq> None) cands"
    using Cons.prems by simp
  obtain cmd where "b h pkg = Inr cmd" using remove_handlers_return[OF b] by blast
  then have "command_raises h b pkg (cprint (AttemptingRemoval mgr) INFO evs) 600 e"
    using raise by (simp add: command_raises_def)
  then obtain evs' where
    att: "remove_attempt h pkg mgr b (attempts, evs) = (False, attempts @ [(mgr, err_result e)], evs')"
    using remove_attempt_exception by blast
  show ?case
    unfolding remove_loop_next[OF b att] Cons.IH[OF rest] by simp
qed

lemma removable_have_handlers:
  "list_all (\<lambda>m. map_of REMOVE_HANDLERS m \<noteq> None)
     (filter (\<lambda>m. m \<in> set (map fst REMOVE_HANDLERS)) ms)"
  by (simp add: list_all_iff map_of_eq_None_iff)

lemma remove_package_None:
  assumes "list_ex id (map snd (detect_installed_managers h))"
  shows "remove_package h pkg None =
     (let cs = filter (\<lambda>m. m \<in> set (map fst REMOVE_HANDLERS))
                 (ordered_install_manager_candidates h pkg (detect_installed_managers h))
      in if cs = [] then ((False, []),
                          [Cprint (PreparingRemove pkg) INFO, Cprint NoManagersForRemoval ERROR])
         else remove_loop h pkg cs ([], [Cprint (PreparingRemove pkg) INFO]))"
  using assms
  by (simp add: remove_package_def Let_def cprint_def del: remove_loop.simps)

lemma remove_package_all_raise:
  assumes raise: "\<forall>evs cmd t r. run_command h evs cmd t r = Inl e"
  shows "fst (remove_package h pkg None) =
           (False, map (\<lambda>m. (m, err_result e))
                     (filter (\<lambda>m. m \<in> set (map fst REMOVE_HANDLERS))
                        (ordered_install_manager_candidates h pkg (detect_installed_managers h))))"
proof (cases "list_ex id (map snd (detect_installed_managers h))")
  case False
  then have none: "\<forall>m. (m, True) \<notin> set (detect_installed_managers h)"
    unfolding any_values_iff by blast
  show ?thesis
    unfolding remove_package_none_available[OF none] ranker_empty[OF none] by simp
next
  case True
  show ?thesis
    unfolding remove_package_None[OF True] Let_def
    using remove_loop_all_raise[OF raise removable_have_handlers, where attempts = "[]"]
    by simp
qed

lemma remove_package_explicit_all_raise:
  assumes raise: "\<forall>evs cmd t r. run_command h evs cmd t r = Inl e"
    and "m \<noteq> []" "removal_valid h m"
  shows "fst (remove_package h pkg (Some m)) = (False, [(lower m, err_result e)])"
proof -
  have "list_all (\<lambda>m. map_of REMOVE_HANDLERS m \<noteq> None) [lower m]"
    using assms(3) by (simp add: removal_valid_def map_of_eq_None_iff)
  then show ?thesis
    unfolding remove_package_explicit[OF assms(2,3)]
    using remove_loop_all_raise[OF raise, where attempts = "[]" and cands = "[lower m]"]
    by simp
qed

text \<open>
  C9. An exception here is one the handler \<open>except Exception\<close> catches, with its
  text; \<open>KeyboardInterrupt\<close> and \<open>SystemExit\<close>, which are not of class \<open>Exception\<close>, are
  outside the model. When the handler of a candidate raises, or \<open>run_command\<close> raises
  for its command, the iteration of the install loop (and of the remove loop) appends
  the synthetic record \<open>(manager, RunResult(False, -1, "", text))\<close> to the attempts and
  does not return, so the loop goes on with the next candidate from that state. The
  exception does not leave the function: if \<open>run_command\<close> raises for every command,
  \<open>install_package\<close> still returns, with \<open>False\<close> and one synthetic record for each
  candidate in order; \<open>remove_package\<close> without a manager returns \<open>False\<close> and one
  synthetic record for each ranked candidate that has a remove handler, in order; and
  \<open>remove_package\<close> with an accepted explicit manager returns \<open>False\<close> and the one
  synthetic record for that manager.
\<close>

theorem exception_becomes_failed_attempt:
  "(command_raises h cmd_builder pkg (cprint (AttemptInstalling i n mgr) INFO evs) 1800 e \<longrightarrow>
      (\<exists>evs'. install_attempt h pkg i n mgr cmd_builder (attempts, evs) =
                 (False, attempts @ [(mgr, \<lparr>ok = False, code = - 1, out = [], err = e\<rparr>)], evs') \<and>
               (map_of INSTALL_HANDLERS mgr = Some cmd_builder \<longrightarrow>
                  install_loop h pkg n ((i, mgr) # rest) (attempts, evs) =
                  install_loop h pkg n rest
                    (attempts @ [(mgr, \<lparr>ok = False, code = - 1, out = [], err = e\<rparr>)], evs')))) \<and>
   (command_raises h cmd_builder pkg (cprint (AttemptingRemoval mgr) INFO evs) 600 e \<longrightarrow>
      (\<exists>evs'. remove_attempt h pkg mgr cmd_builder (attempts, evs) =
                 (False, attempts @ [(mgr, \<lparr>ok = False, code = - 1, out = [], err = e\<rparr>)], evs') \<and>
               (map_of REMOVE_HANDLERS mgr = Some cmd_builder \<longrightarrow>
                  remove_loop h pkg (mgr # others) (attempts, evs) =
                  remove_loop h pkg others
                    (attempts @ [(mgr, \<lparr>ok = False, code = - 1, out = [], err = e\<rparr>)], evs')))) \<and>
   ((\<forall>evs cmd t r. run_command h evs cmd t r = Inl e) \<and>
    list_ex id (map snd (detect_installed_managers h)) \<longrightarrow>
      fst (install_package h pkg None) =
        (False, map (\<lambda>m. (m, \<lparr>ok = False, code = - 1, out = [], err = e\<rparr>))
                  (ordered_install_manager_candidates h pkg (detect_installed_managers h)))) \<and>
   ((\<forall>evs cmd t r. run_command h evs cmd t r = Inl e) \<longrightarrow>
      fst (remove_package h pkg None) =
        (False, map (\<lambda>m. (m, \<lparr>ok = False, code = - 1, out = [], err = e\<rparr>))
                  (filter (\<lambda>m. m \<in> set (map fst REMOVE_HANDLERS))
                     (ordered_install_manager_candidates h pkg (detect_installed_managers h))))) \<and>
   ((\<forall>evs cmd t r. run_command h evs cmd t r = Inl e) \<and> m \<noteq> [] \<and> removal_valid h m \<longrightarrow>
      fst (remove_package h pkg (Some m)) =
        (False, [(lower m, \<lparr>ok = False, code = - 1, out = [], err = e\<rparr>)]))"
proof (intro conjI impI)
  assume "command_raises h cmd_builder pkg (cprint (AttemptInstalling i n mgr) INFO evs) 1800 e"
  then obtain evs' where att:
    "install_attempt h pkg i n mgr cmd_builder (attempts, evs) =
       (False, attempts @ [(mgr, err_result e)], evs')"
    using install_attempt_exception by blast
  have "map_of INSTALL_HANDLERS mgr = Some cmd_builder \<longrightarrow>
          install_loop h pkg n ((i, mgr) # rest) (attempts, evs) =
          install_loop h pkg n rest (attempts @ [(mgr, err_result e)], evs')"
    using install_loop_next[OF _ att] by blast
  then show "\<exists>evs'. install_attempt h pkg i n mgr cmd_builder (attempts, evs) =
                 (False, attempts @ [(mgr, \<lparr>ok = False, code = - 1, out = [], err = e\<rparr>)], evs') \<and>
               (map_of INSTALL_HANDLERS mgr = Some cmd_builder \<longrightarrow>
                  install_loop h pkg n ((i, mgr) # rest) (attempts, evs) =
                  install_loop h pkg n rest
                    (attempts @ [(mgr, \<lparr>ok = False, code = - 1, out = [], err = e\<rparr>)], evs'))"
    using att unfolding err_result_def by blast
next
  assume "command_raises h cmd_builder pkg (cprint (AttemptingRemoval mgr) INFO evs) 600 e"
  then obtain evs' where att:
    "remove_attempt h pkg mgr cmd_builder (attempts, evs) =
       (False, attempts @ [(mgr, err_result e)], evs')"
    using remove_attempt_exception by blast
  have "map_of REMOVE_HANDLERS mgr = Some cmd_builder \<longrightarrow>
          remove_loop h pkg (mgr # others) (attempts, evs) =
          remove_loop h pkg others (attempts @ [(mgr, err_result e)], evs')"
    using remove_loop_next[OF _ att] by blast
  then show "\<exists>evs'. remove_attempt h pkg mgr cmd_builder (attempts, evs) =
                 (False, attempts @ [(mgr, \<lparr>ok = False, code = - 1, out = [], err = e\<rparr>)], evs') \<and>
               (map_of REMOVE_HANDLERS mgr = Some cmd_builder \<longrightarrow>
                  remove_loop h pkg (mgr # others) (attempts, evs) =
                  remove_loop h pkg others
                    (attempts @ [(mgr, \<lparr>ok = False, code = - 1, out = [], err = e\<rparr>)], evs'))"
    using att unfolding err_result_def by blast
next
  assume "(\<forall>evs cmd t r. run_command h evs cmd t r = Inl e) \<and>
          list_ex id (map snd (detect_installed_managers h))"
  then show "fst (install_package h pkg None) =
        (False, map (\<lambda>m. (m, \<lparr>ok = False, code = - 1, out = [], err = e\<rparr>))
                  (ordered_install_manager_candidates h pkg (detect_installed_managers h)))"
    using install_package_all_raise[of h e pkg] unfolding err_result_def by blast
next
  assume "\<forall>evs cmd t r. run_command h evs cmd t r = Inl e"
  then show "fst (remove_package h pkg None) =
        (False, map (\<lambda>m. (m, \<lparr>ok = False, code = - 1, out = [], err = e\<rparr>))
                  (filter (\<lambda>m. m \<in> set (map fst REMOVE_HANDLERS))
                     (ordered_install_manager_candidates h pkg (detect_installed_managers h))))"
    using remove_package_all_raise[of h e pkg] unfolding err_result_def by blast
next
  assume "(\<forall>evs cmd t r. run_command h evs cmd t r = Inl e) \<and> m \<noteq> [] \<and> removal_valid h m"
  then show "fst (remove_package h pkg (Some m)) =
        (False, [(lower m, \<lparr>ok = False, code = - 1, out = [], err = e\<rparr>)])"
    using remove_package_explicit_all_raise[of h e m pkg] unfolding err_result_def by blast
qed

theorem exception_becomes_failed_attempt_witness:
  "command_raises broken_runner_host apt_builder ''foo''
     (cprint (AttemptInstalling 1 2 ''apt'') INFO []) 1800 ''OSError'' \<and>
   map_of INSTALL_HANDLERS ''apt'' = Some apt_builder \<and>
   (\<exists>evs'. install_attempt broken_runner_host ''foo'' 1 2 ''apt'' apt_builder ([], []) =
              (False, [(''apt'', \<lparr>ok = False, code = - 1, out = [], err = ''OSError''\<rparr>)], evs') \<and>
            install_loop broken_runner_host ''foo'' 2 [(1, ''apt''), (2, ''pip'')] ([], []) =
            install_loop broken_runner_host ''foo'' 2 [(2, ''pip'')]
              ([(''apt'', \<lparr>ok = False, code = - 1, out = [], err = ''OSError''\<rparr>)], evs')) \<and>
   command_raises bare_host failing_builder ''foo''
     (cprint (AttemptingRemoval ''apt'') INFO []) 600 ''cannot build'' \<and>
   (\<exists>evs'. remove_attempt bare_host ''foo'' ''apt'' failing_builder ([], []) =
              (False, [(''apt'', \<lparr>ok = False, code = - 1, out = [], err = ''cannot build''\<rparr>)], evs')) \<and>
   (\<forall>evs cmd t r. run_command broken_runner_host evs cmd t r = Inl ''OSError'') \<and>
   list_ex id (map snd (detect_installed_managers broken_runner_host)) \<and>
   fst (install_package broken_runner_host ''foo'' None) =
     (False, [(''apt'', \<lparr>ok = False, code = - 1, out = [], err = ''OSError''\<rparr>),
              (''pip'', \<lparr>ok = False, code = - 1, out = [], err = ''OSError''\<rparr>)]) \<and>
   fst (remove_package broken_runner_host ''foo'' None) =
     (False, [(''apt'', \<lparr>ok = False, code = - 1, out = [], err = ''OSError''\<rparr>),
              (''pip'', \<lparr>ok = False, code = - 1, out = [], err = ''OSError''\<rparr>)]) \<and>
   ''APT'' \<noteq> [] \<and> removal_valid broken_runner_host ''APT'' \<and>
   fst (remove_package broken_runner_host ''foo'' (Some ''APT'')) =
     (False, [(''apt'', \<lparr>ok = False, code = - 1, out = [], err = ''OSError''\<rparr>)])"
proof -
  have r1: "command_raises broken_runner_host apt_builder ''foo''
     (cprint (AttemptInstalling 1 2 ''apt'') INFO []) 1800 ''OSError''"
    by code_simp
  have hd: "map_of INSTALL_HANDLERS ''apt'' = Some apt_builder"
    by (simp add: INSTALL_HANDLERS_def apt_builder_def fun_eq_iff)
  have r2: "command_raises bare_host failing_builder ''foo''
     (cprint (AttemptingRemoval ''apt'') INFO []) 600 ''cannot build''"
    by code_simp
  have r3: "\<forall>evs cmd t r. run_command broken_runner_host evs cmd t r = Inl ''OSError''"
    by (simp add: broken_runner_host_def)
  have some: "list_ex id (map snd (detect_installed_managers broken_runner_host))"
    by code_simp
  have ranked: "ordered_install_manager_candidates broken_runner_host ''foo''
                  (detect_installed_managers broken_runner_host) = [''apt'', ''pip'']"
    by code_simp
  have c1: "\<exists>evs'. install_attempt broken_runner_host ''foo'' 1 2 ''apt'' apt_builder ([], []) =
              (False, [(''apt'', \<lparr>ok = False, code = - 1, out = [], err = ''OSError''\<rparr>)], evs') \<and>
            install_loop broken_runner_host ''foo'' 2 [(1, ''apt''), (2, ''pip'')] ([], []) =
            install_loop broken_runner_host ''foo'' 2 [(2, ''pip'')]
              ([(''apt'', \<lparr>ok = False, code = - 1, out = [], err = ''OSError''\<rparr>)], evs')"
    using r1 hd
      exception_becomes_failed_attempt[of broken_runner_host apt_builder "''foo''" 1 2 "''apt''"
        "[]" "''OSError''" "[]" "[(2, ''pip'')]" "[]" "''APT''"]
    by simp
  have c2: "\<exists>evs'. remove_attempt bare_host ''foo'' ''apt'' failing_builder ([], []) =
              (False, [(''apt'', \<lparr>ok = False, code = - 1, out = [], err = ''cannot build''\<rparr>)], evs')"
    using r2
      exception_becomes_failed_attempt[of bare_host failing_builder "''foo''" 1 2 "''apt''"
        "[]" "''cannot build''" "[]" "[]" "[]" "[]", THEN conjunct2, THEN conjunct1]
    by auto
  have c3: "fst (install_package broken_runner_host ''foo'' None) =
     (False, [(''apt'', \<lparr>ok = False, code = - 1, out = [], err = ''OSError''\<rparr>),
              (''pip'', \<lparr>ok = False, code = - 1, out = [], err = ''OSError''\<rparr>)])"
    using r3 some
      exception_becomes_failed_attempt[of broken_runner_host apt_builder "''foo''" 1 2 "''apt''"
        "[]" "''OSError''" "[]" "[(2, ''pip'')]" "[]" "''APT''"]
    unfolding ranked by simp
  have removable: "filter (\<lambda>m. m \<in> set (map fst REMOVE_HANDLERS)) [''apt'', ''pip'']
                     = [''apt'', ''pip'']"
    by code_simp
  have c4: "fst (remove_package broken_runner_host ''foo'' None) =
     (False, [(''apt'', \<lparr>ok = False, code = - 1, out = [], err = ''OSError''\<rparr>),
              (''pip'', \<lparr>ok = False, code = - 1, out = [], err = ''OSError''\<rparr>)])"
    using r3
      exception_becomes_failed_attempt[of broken_runner_host apt_builder "''foo''" 1 2 "''apt''"
        "[]" "''OSError''" "[]" "[(2, ''pip'')]" "[]" "''APT''"]
    unfolding ranked removable by simp
  have ne: "''APT'' \<noteq> []" by simp
  have valid: "removal_valid broken_runner_host ''APT''" by code_simp
  have low: "lower ''APT'' = ''apt''" by code_simp
  have c5: "fst (remove_package broken_runner_host ''foo'' (Some ''APT'')) =
     (False, [(''apt'', \<lparr>ok = False, code = - 1, out = [], err = ''OSError''\<rparr>)])"
    using r3 ne valid
      exception_becomes_failed_attempt[of broken_runner_host apt_builder "''foo''" 1 2 "''apt''"
        "[]" "''OSError''" "[]" "[(2, ''pip'')]" "[]" "''APT''"]
    unfolding low by simp
  show ?thesis
    using r1 hd c1 r2 c2 r3 some c3 c4 ne valid c5 by blast
qed

section \<open>C1: stopping at the first success\<close>

lemma apply_preferred_manager_candidates:
  "fst (apply_preferred_manager installed pm cands evs)
     = fst (apply_preferred_manager installed pm cands [])"
  by (simp add: apply_preferred_manager_def Let_def split: option.splits)

lemma apply_preferred_manager_commands:
  "commands_run (snd (apply_preferred_manager installed pm cands evs)) = commands_run evs"
  by (simp add: apply_preferred_manager_def Let_def commands_run_cprint split: option.splits)

lemma commands_run_plan:
  "commands_run (fold (\<lambda>(i, m). cprint (PlanEntry i m) MUTED) xs evs) = commands_run evs"
  by (induction xs arbitrary: evs) (auto simp: commands_run_cprint)

lemma install_candidates_cases:
  "install_candidates h pkg pm = ordered_install_manager_candidates h pkg (detect_installed_managers h) \<or>
   (\<exists>p. pm = Some p \<and> p \<noteq> [] \<and> preferred_valid h p \<and>
        install_candidates h pkg pm = lower p # filter (\<lambda>m. m \<noteq> lower p)
           (ordered_install_manager_candidates h pkg (detect_installed_managers h)))"
  by (auto simp: install_candidates_def apply_preferred_manager_def preferred_valid_def Let_def
           split: option.splits)

lemma install_candidates_nonempty:
  assumes "list_ex id (map snd (detect_installed_managers h))"
  shows "install_candidates h pkg pm \<noteq> []"
  using install_candidates_cases[of h pkg pm] some_available_ranked[OF assms, of pkg] by auto

lemma install_candidates_handlers:
  "list_all (\<lambda>c. map_of INSTALL_HANDLERS (snd c) \<noteq> None) (enumerate k (install_candidates h pkg pm))"
proof -
  have ranked: "\<forall>m\<in>set (ordered_install_manager_candidates h pkg (detect_installed_managers h)).
          map_of INSTALL_HANDLERS m \<noteq> None"
    using ranker_inv[OF detect_distinct, of h pkg] available_has_install_handler by blast
  have pv: "map_of INSTALL_HANDLERS (lower p) \<noteq> None" if "preferred_valid h p" for p
    using that by (simp add: preferred_valid_def map_of_eq_None_iff)
  have "\<forall>m\<in>set (install_candidates h pkg pm). map_of INSTALL_HANDLERS m \<noteq> None"
    using install_candidates_cases[of h pkg pm] ranked pv by auto
  then show ?thesis
    unfolding list_all_iff enumerate_eq_zip by (auto dest: set_zip_rightD)
qed

lemma install_package_loop:
  assumes "list_ex id (map snd (detect_installed_managers h))"
  shows "\<exists>evs. commands_run evs = [] \<and>
           install_package h pkg pm =
             install_loop h pkg (length (install_candidates h pkg pm))
               (enumerate 1 (install_candidates h pkg pm)) ([], evs)"
proof -
  let ?installed = "detect_installed_managers h"
  let ?ranked = "ordered_install_manager_candidates h pkg ?installed"
  let ?evs0 = "cprint (PreparingInstall pkg) INFO []"
  obtain cs evs1 where ap: "apply_preferred_manager ?installed pm ?ranked ?evs0 = (cs, evs1)"
    by (cases "apply_preferred_manager ?installed pm ?ranked ?evs0") auto
  have cs: "cs = install_candidates h pkg pm"
    using apply_preferred_manager_candidates[of ?installed pm ?ranked ?evs0] ap
    by (simp add: install_candidates_def)
  have "commands_run evs1 = commands_run ?evs0"
    using apply_preferred_manager_commands[of ?installed pm ?ranked ?evs0] ap by simp
  then have e1: "commands_run evs1 = []" by (simp add: commands_run_cprint)
  have ne: "cs \<noteq> []" unfolding cs by (rule install_candidates_nonempty[OF assms])
  let ?evs = "fold (\<lambda>(i, m). cprint (PlanEntry i m) MUTED) (enumerate 1 cs)
                (cprint InstallationPlan CYAN evs1)"
  have "install_package h pkg pm = install_loop h pkg (length cs) (enumerate 1 cs) ([], ?evs)"
    using assms ap ne
    by (simp add: install_package_def Let_def del: install_loop.simps enumerate_simps)
  moreover have "commands_run ?evs = []"
    by (simp add: commands_run_plan commands_run_cprint e1 del: enumerate_simps)
  ultimately show ?thesis unfolding cs by blast
qed

lemma install_loop_commands_count:
  assumes db: "\<forall>evs p v m c. db_add_package h evs p v m c = None"
    and handlers: "list_all (\<lambda>c. map_of INSTALL_HANDLERS (snd c) \<noteq> None) cands"
  shows "length (commands_run (snd (install_loop h pkg n cands (attempts, evs)))) + length attempts
           = length (commands_run evs) + length (snd (fst (install_loop h pkg n cands (attempts, evs))))"
  using handlers
proof (induction cands arbitrary: attempts evs)
  case Nil
  show ?case by (simp add: commands_run_cprint)
next
  case (Cons c cands)
  obtain i mgr where c: "c = (i, mgr)" by (cases c)
  obtain b where handler: "map_of INSTALL_HANDLERS mgr = Some b"
    using Cons.prems c by auto
  have rest: "list_all (\<lambda>c. map_of INSTALL_HANDLERS (snd c) \<noteq> None) cands"
    using Cons.prems by simp
  obtain ret attempts' evs' where
    att: "install_attempt h pkg i n mgr b (attempts, evs) = (ret, attempts', evs')"
    by (cases "install_attempt h pkg i n mgr b (attempts, evs)") auto
  obtain r where r: "attempts' = attempts @ [(mgr, r)]"
    using install_attempt_no_store_failure[OF att db] by blast
  obtain cmd where "b h pkg = Inr cmd" using install_handlers_return[OF handler] by blast
  then have cmds: "commands_run evs' = commands_run evs @ [cmd]"
    using install_attempt_commands[OF att] by simp
  show ?case
  proof (cases ret)
    case True
    have att': "install_attempt h pkg i n mgr b (attempts, evs) = (True, attempts', evs')"
      using att True by simp
    show ?thesis unfolding c install_loop_return[OF handler att'] using r cmds by simp
  next
    case False
    have att': "install_attempt h pkg i n mgr b (attempts, evs) = (False, attempts', evs')"
      using att False by simp
    show ?thesis
      unfolding c install_loop_next[OF handler att']
      using Cons.IH[OF rest, of attempts' evs'] r cmds by simp
  qed
qed

text \<open>
  When the record store does not raise, \<open>install_package\<close> does stop at the first
  success: the attempts are a prefix of the candidates in order, one command was run for
  each, and on success the last attempt is the only one that is ok.
\<close>

lemma install_package_stops_at_first_success:
  assumes db: "\<forall>evs p v m c. db_add_package h evs p v m c = None"
    and some: "list_ex id (map snd (detect_installed_managers h))"
  shows "first_success (fst (fst (install_package h pkg pm))) (install_candidates h pkg pm)
           (snd (fst (install_package h pkg pm))) \<and>
         length (commands_run (snd (install_package h pkg pm)))
           = length (snd (fst (install_package h pkg pm)))"
proof -
  obtain evs where evs: "commands_run evs = []"
    and loop: "install_package h pkg pm =
             install_loop h pkg (length (install_candidates h pkg pm))
               (enumerate 1 (install_candidates h pkg pm)) ([], evs)"
    using install_package_loop[OF some] by blast
  have "first_success (fst (fst (install_package h pkg pm)))
          (map snd (enumerate 1 (install_candidates h pkg pm)))
          (snd (fst (install_package h pkg pm)))"
    unfolding loop
    using install_loop_first_success[OF db install_candidates_handlers, where attempts = "[]"]
    by auto
  moreover have "length (commands_run (snd (install_package h pkg pm)))
           = length (snd (fst (install_package h pkg pm)))"
    unfolding loop
    using install_loop_commands_count[OF db install_candidates_handlers, where attempts = "[]"] evs
    by simp
  ultimately show ?thesis by simp
qed

text \<open>
  C1 fails on the code when the record store raises. On a host with apt and pip, where
  every command succeeds and every write to the record store raises, the first attempt
  (apt) is ok, but \<open>package_db.add_package\<close> raises inside the \<open>try\<close> block: the handler
  records a second, failed attempt for apt and the loop goes on to pip, whose command
  is built and run as well, and the function returns \<open>False\<close> with four attempts.
\<close>

theorem install_goes_on_after_success_when_store_raises:
  "install_candidates locked_db_host ''foo'' None = [''apt'', ''pip''] \<and>
   fst (install_package locked_db_host ''foo'' None) =
     (False,
      [(''apt'', \<lparr>ok = True, code = 0, out = [], err = []\<rparr>),
       (''apt'', \<lparr>ok = False, code = - 1, out = [], err = ''database is locked''\<rparr>),
       (''pip'', \<lparr>ok = True, code = 0, out = [], err = []\<rparr>),
       (''pip'', \<lparr>ok = False, code = - 1, out = [], err = ''database is locked''\<rparr>)]) \<and>
   commands_run (snd (install_package locked_db_host ''foo'' None)) =
     [[''sudo'', ''apt'', ''install'', ''-y'', ''foo''],
      [''python3'', ''-m'', ''pip'', ''install'', ''--user'', ''foo'']]"
  by code_simp

section \<open>C10: the PyPI lookup\<close>

lemma search_pypi_cases:
  "search_pypi h query = [] \<or>
   (\<exists>r data result.
       session_get h (''https://pypi.org/pypi/'' @ query @ ''/json'') 10 = Inr r \<and>
       status_code r = 200 \<and> json r = Inr data \<and> parse_pypi_info data = Inr result \<and>
       search_pypi h query = [result])"
  by (auto simp: search_pypi_def Let_def split: sum.splits)

lemma parse_pypi_info_score:
  "parse_pypi_info data = Inr result \<Longrightarrow> relevance_score result = 50 \<and> manager result = ''pip''"
  by (auto simp: parse_pypi_info_def split: sum.splits if_splits)

text \<open>
  C10. \<open>_search_pypi\<close> returns at most one result. It asks for the URL
  \<open>https://pypi.org/pypi/<query>/json\<close>. If the request raises, or the status is not
  200, or decoding or reading the JSON raises, it returns the empty list; if the status
  is 200 and nothing raises, it returns exactly the one parsed result, whose relevance
  score is 50 and whose manager is pip.
\<close>

theorem search_pypi_exact_lookup:
  "length (search_pypi h query) \<le> 1 \<and>
   list_all (\<lambda>result. relevance_score result = 50 \<and> manager result = ''pip'')
     (search_pypi h query) \<and>
   (session_get h (''https://pypi.org/pypi/'' @ query @ ''/json'') 10 = Inl e \<longrightarrow>
      search_pypi h query = []) \<and>
   (session_get h (''https://pypi.org/pypi/'' @ query @ ''/json'') 10 = Inr r \<longrightarrow>
      (status_code r \<noteq> 200 \<longrightarrow> search_pypi h query = []) \<and>
      (status_code r = 200 \<longrightarrow>
         (json r = Inl e \<longrightarrow> search_pypi h query = []) \<and>
         (json r = Inr data \<longrightarrow>
            (parse_pypi_info data = Inl e \<longrightarrow> search_pypi h query = []) \<and>
            (parse_pypi_info data = Inr result \<longrightarrow>
               search_pypi h query = [result] \<and> relevance_score result = 50))))"
proof (intro conjI impI)
  show "length (search_pypi h query) \<le> 1"
    using search_pypi_cases[of h query] by auto
  show "list_all (\<lambda>result. relevance_score result = 50 \<and> manager result = ''pip'')
     (search_pypi h query)"
    using search_pypi_cases[of h query] parse_pypi_info_score by auto
qed (simp_all add: search_pypi_def Let_def parse_pypi_info_score)

theorem search_pypi_exact_lookup_witness:
  "session_get registry_host (''https://pypi.org/pypi/'' @ ''flask'' @ ''/json'') 10
     = Inr \<lparr>status_code = 200, json = Inr flask_json\<rparr> \<and>
   parse_pypi_info flask_json =
     Inr \<lparr>name = PStr ''Flask'', description = PStr ''A web framework'',
          version = PStr ''3.0.0'', manager = ''pip'',
          homepage = PStr ''https://pypi.org/project/Flask/'', relevance_score = 50\<rparr> \<and>
   search_pypi registry_host ''flask'' =
     [\<lparr>name = PStr ''Flask'', description = PStr ''A web framework'',
       version = PStr ''3.0.0'', manager = ''pip'',
       homepage = PStr ''https://pypi.org/project/Flask/'', relevance_score = 50\<rparr>] \<and>
   session_get bare_host (''https://pypi.org/pypi/'' @ ''flask'' @ ''/json'') 10
     = Inl ''ConnectionError'' \<and>
   search_pypi bare_host ''flask'' = []"
proof -
  have g1: "session_get registry_host (''https://pypi.org/pypi/'' @ ''flask'' @ ''/json'') 10
     = Inr \<lparr>status_code = 200, json = Inr flask_json\<rparr>"
    by (simp add: registry_host_def)
  have p1: "parse_pypi_info flask_json =
     Inr \<lparr>name = PStr ''Flask'', description = PStr ''A web framework'',
          version = PStr ''3.0.0'', manager = ''pip'',
          homepage = PStr ''https://pypi.org/project/Flask/'', relevance_score = 50\<rparr>"
    by (simp add: parse_pypi_info_def flask_json_def dict_get_def slice_200_def truthy_def)
  have g2: "session_get bare_host (''https://pypi.org/pypi/'' @ ''flask'' @ ''/json'') 10
     = Inl ''ConnectionError''"
    by (simp add: bare_host_def)
  have c1: "search_pypi registry_host ''flask'' =
     [\<lparr>name = PStr ''Flask'', description = PStr ''A web framework'',
       version = PStr ''3.0.0'', manager = ''pip'',
       homepage = PStr ''https://pypi.org/project/Flask/'', relevance_score = 50\<rparr>]"
    using g1 p1
      search_pypi_exact_lookup[of registry_host "''flask''" "''none''"
        "\<lparr>status_code = 200, json = Inr flask_json\<rparr>" flask_json]
    by simp
  have c2: "search_pypi bare_host ''flask'' = []"
    using g2 search_pypi_exact_lookup[of bare_host "''flask''" "''ConnectionError''"]
    by simp
  show ?thesis using g1 p1 c1 g2 c2 by blast
qed

section \<open>C7: search results are limited and sorted\<close>

lemma sort_by_relevance_sorted:
  "sorted_wrt (\<lambda>a b. relevance_score b \<le> relevance_score a) (sort_by_relevance xs)"
proof -
  have "sorted (map (\<lambda>x. - relevance_score x) (sort_key (\<lambda>x. - relevance_score x) xs))"
    by (rule sorted_sort_key)
  then show ?thesis by (simp add: sort_by_relevance_def sorted_map)
qed

lemma sort_by_relevance_stable:
  "filter (\<lambda>x. relevance_score x = k) (sort_by_relevance xs) = filter (\<lambda>x. relevance_score x = k) xs"
proof -
  have "filter (\<lambda>x. - relevance_score x = - k) (sort_key (\<lambda>x. - relevance_score x) xs)
          = filter (\<lambda>x. - relevance_score x = - k) xs"
    by (rule sort_key_stable)
  then show ?thesis by (simp add: sort_by_relevance_def)
qed

lemma slice_upto_take: "\<exists>n. slice_upto xs limit = take n xs"
  by (auto simp: slice_upto_def)

lemma slice_upto_length: "0 \<le> limit \<Longrightarrow> int (length (slice_upto xs limit)) \<le> limit"
  by (simp add: slice_upto_def)

lemma filter_take_prefix: "prefix (filter P (take n xs)) (filter P xs)"
proof -
  have "prefix (take n xs) xs" by (rule take_is_prefix)
  then obtain ys where "xs = take n xs @ ys" by (auto simp: prefix_def)
  then have "filter P xs = filter P (take n xs) @ filter P ys"
    by (metis filter_append)
  then show ?thesis by (simp add: prefix_def)
qed

lemma search_Inr_cases:
  assumes "search h query manager_arg limit = Inr results"
  shows "(target_managers h manager_arg = [] \<and> results = []) \<or>
         (\<exists>all_results. gather h query (target_managers h manager_arg) = Inr all_results \<and>
            results = slice_upto (sort_by_relevance all_results) limit)"
  using assms by (auto simp: search_def Let_def split: if_splits sum.splits)

text \<open>
  C7, as amended. When \<open>search\<close> returns a list: for a limit that is not negative the
  list is no longer than the limit; the list is in non-increasing order of relevance
  score; and the results of any one score are, in the order returned, a prefix of the
  results of that score in the order they were merged, so ties keep their insertion
  order.
\<close>

theorem search_limited_sorted_stable:
  assumes "search h query manager_arg limit = Inr results"
  shows "(0 \<le> limit \<longrightarrow> int (length results) \<le> limit) \<and>
         sorted_wrt (\<lambda>a b. relevance_score b \<le> relevance_score a) results \<and>
         (gather h query (target_managers h manager_arg) = Inr all_results \<longrightarrow>
            prefix (filter (\<lambda>x. relevance_score x = k) results)
                   (filter (\<lambda>x. relevance_score x = k) all_results))"
  using search_Inr_cases[OF assms]
proof
  assume "target_managers h manager_arg = [] \<and> results = []"
  then show ?thesis by simp
next
  assume "\<exists>all_results. gather h query (target_managers h manager_arg) = Inr all_results \<and>
            results = slice_upto (sort_by_relevance all_results) limit"
  then obtain merged where g: "gather h query (target_managers h manager_arg) = Inr merged"
    and r: "results = slice_upto (sort_by_relevance merged) limit"
    by blast
  obtain n where n: "results = take n (sort_by_relevance merged)"
    using slice_upto_take r by blast
  have "0 \<le> limit \<longrightarrow> int (length results) \<le> limit"
    unfolding r using slice_upto_length by blast
  moreover have "sorted_wrt (\<lambda>a b. relevance_score b \<le> relevance_score a) results"
    unfolding n using sort_by_relevance_sorted by (rule sorted_wrt_take)
  moreover have "prefix (filter (\<lambda>x. relevance_score x = k) results)
                   (filter (\<lambda>x. relevance_score x = k) merged)"
    unfolding n using filter_take_prefix[of "\<lambda>x. relevance_score x = k" n "sort_by_relevance merged"]
    by (simp add: sort_by_relevance_stable)
  ultimately show ?thesis using g by auto
qed

lemma gather_registry_host:
  "gather registry_host ''flask'' (target_managers registry_host None)
     = Inr [flask_result, flask_js, flasky]"
  by code_simp

lemma search_registry_host_20:
  "search registry_host ''flask'' None 20 = Inr [flask_js, flask_result, flasky]"
  by code_simp

theorem search_limited_sorted_stable_witness:
  "search registry_host ''flask'' None 20 = Inr [flask_js, flask_result, flasky] \<and>
   gather registry_host ''flask'' (target_managers registry_host None)
     = Inr [flask_result, flask_js, flasky] \<and>
   (0::int) \<le> 20 \<and> int (length [flask_js, flask_result, flasky]) \<le> 20 \<and>
   sorted_wrt (\<lambda>a b. relevance_score b \<le> relevance_score a) [flask_js, flask_result, flasky] \<and>
   prefix (filter (\<lambda>x. relevance_score x = 50) [flask_js, flask_result, flasky])
          (filter (\<lambda>x. relevance_score x = 50) [flask_result, flask_js, flasky])"
  using search_registry_host_20 gather_registry_host
    search_limited_sorted_stable[OF search_registry_host_20,
      of "[flask_result, flask_js, flasky]" 50]
  by simp

theorem search_negative_limit_counterexample:
  "search registry_host ''flask'' None (- 1) = Inr [flask_js, flask_result] \<and>
   \<not> int (length [flask_js, flask_result]) \<le> - 1"
proof -
  have "search registry_host ''flask'' None (- 1) = Inr [flask_js, flask_result]"
    by code_simp
  then show ?thesis by simp
qed

section \<open>C4: tasks that raise or are not done in time\<close>

lemma collect_raised: "collect (mgr, Inl e) all_results = all_results"
  by (simp add: collect_def)

lemma collect_returned: "collect (mgr, Inr results) all_results = all_results @ results"
  by (simp add: collect_def)

lemma search_returns_when_all_done:
  assumes "\<forall>m. finished_in_time h m"
  shows "\<exists>results. search h query manager_arg limit = Inr results"
  using assms by (simp add: search_def gather_def Let_def list_all_iff)

text \<open>
  One submitted task that is not done at the deadline is enough for \<open>search\<close> to raise,
  whatever the other tasks returned.
\<close>

lemma search_times_out:
  assumes target: "m \<in> set (target_managers h manager_arg)"
    and func: "map_of manager_funcs m = Some func"
    and late: "\<not> finished_in_time h m"
  shows "search h query manager_arg limit = Inl ''TimeoutError''"
proof -
  let ?futures = "List.map_filter
              (\<lambda>mgr. map_option (\<lambda>func. (mgr, func h query)) (map_of manager_funcs mgr))
              (target_managers h manager_arg)"
  have "(m, func h query) \<in> set ?futures"
    using target func by (auto simp: map_filter_def intro!: image_eqI[where x = m])
  moreover have "\<not> finished_in_time h (fst (m, func h query))" using late by simp
  ultimately have "\<not> list_all (\<lambda>future. finished_in_time h (fst future)) ?futures"
    unfolding list_all_iff by blast
  then have "gather h query (target_managers h manager_arg) = Inl ''TimeoutError''"
    by (simp add: gather_def Let_def)
  moreover have "target_managers h manager_arg \<noteq> []" using target by auto
  ultimately show ?thesis by (simp add: search_def Let_def)
qed

text \<open>
  C4 on the code. A task that raises is skipped and the results of the others are
  returned: with the npm search raising, \<open>search\<close> returns the PyPI result. A task that is
  not done at the deadline makes \<open>as_completed\<close> raise: with the npm task still running,
  \<open>search\<close> raises \<open>TimeoutError\<close>, although the pip task had completed with the same
  result.
\<close>

theorem search_raises_on_unfinished_task:
  "search_backend raising_npm_host ''npm'' ''flask'' = Inl ''ValueError'' \<and>
   search raising_npm_host ''flask'' None 20 = Inr [flask_result] \<and>
   finished_in_time slow_npm_host ''pip'' \<and>
   search_pypi slow_npm_host ''flask'' = [flask_result] \<and>
   \<not> finished_in_time slow_npm_host ''npm'' \<and>
   search slow_npm_host ''flask'' None 20 = Inl ''TimeoutError''"
  by code_simp

end
